theory Spec2Isabelle
  imports Main "HOL-Library.Word" "HOL-Library.List_Lexorder" "HOL-Library.AList"
begin

unbundle bit_operations_syntax

section \<open>Elysium Lelantus: mint ledger sequences and the mint-pool wallet\<close>

text \<open>
  A shallow embedding of \<^verbatim>\<open>src/elysium/lelantusdb.h\<close>,
  \<^verbatim>\<open>src/elysium/lelantusprimitives.cpp\<close> and
  \<^verbatim>\<open>src/elysium/lelantuswallet.{h,cpp}\<close>.
  Exceptions are values of the type \<open>error\<close>; a function that mutates the wallet
  object returns the object as the exception or the return leaves it.
\<close>

subsection \<open>Bytes, blobs and exceptions\<close>

type_synonym byte = "8 word"
type_synonym bytes = "byte list"

text \<open>\<^verbatim>\<open>uint256\<close>, \<^verbatim>\<open>uint160\<close>, \<^verbatim>\<open>uint512\<close> and \<^verbatim>\<open>CKeyID\<close> are opaque
  blobs of 32, 20, 64 and 20 bytes.\<close>

type_synonym uint256 = bytes
type_synonym uint160 = bytes
type_synonym uint512 = bytes
type_synonym CKeyID = uint160
type_synonym MintEntryId = uint256

datatype error =
    runtime_error string
  | invalid_argument string
  | WalletLocked
  | ios_base_failure
  | external_failure string

subsection \<open>The ordered store and its iterator\<close>

text \<open>
  Modelled from the spec: the ordered byte-string key-value store (LevelDB; neither
  it nor \<^verbatim>\<open>LelantusDb::NewIterator\<close> is in the sources). Keys are compared bytewise,
  a shorter key before its extensions, which is the lexicographic order on byte lists.
  An iterator walks the keys in that order; \<open>cursor = None\<close> is an iterator that is
  not \<open>Valid\<close>.
\<close>

record Iterator =
  entries :: "bytes list"
  cursor :: "nat option"

definition NewIterator :: "bytes list \<Rightarrow> Iterator" where
  "NewIterator db = \<lparr>entries = sort (remdups db), cursor = None\<rparr>"

definition Valid :: "Iterator \<Rightarrow> bool" where
  "Valid it = (cursor it \<noteq> None)"

definition Seek :: "Iterator \<Rightarrow> bytes \<Rightarrow> Iterator" where
  "Seek it target =
     (let n = length (takeWhile (\<lambda>k. k < target) (entries it))
      in it\<lparr>cursor := (if n < length (entries it) then Some n else None)\<rparr>)"

definition Prev :: "Iterator \<Rightarrow> Iterator" where
  "Prev it = it\<lparr>cursor := (case cursor it of None \<Rightarrow> None | Some 0 \<Rightarrow> None | Some (Suc n) \<Rightarrow> Some n)\<rparr>"

definition key :: "Iterator \<Rightarrow> bytes" where
  "key it = (case cursor it of None \<Rightarrow> [] | Some n \<Rightarrow> entries it ! n)"

subsection \<open>\<^verbatim>\<open>LelantusDb::GetNextSequence\<close>\<close>

text \<open>
  The serialization of the key tuple \<^verbatim>\<open>std::tuple<T..., uint64_t>\<close> through
  \<^verbatim>\<open>CDataStream\<close> is not in the sources; it is a parameter. \<open>Unserialize\<close> gives
  \<open>None\<close> where the stream throws because the key is too short for the tuple.
\<close>

record 'p KeySerializer =
  Serialize :: "'p \<times> 64 word \<Rightarrow> bytes"
  Unserialize :: "bytes \<Rightarrow> ('p \<times> 64 word) option"

definition UINT64_MAX :: "64 word" where
  "UINT64_MAX = - 1"

text \<open>\<^verbatim>\<open>swapByteOrder\<close> on a 64-bit value reverses its eight bytes.\<close>

definition swapByteOrder :: "64 word \<Rightarrow> 64 word" where
  "swapByteOrder v =
     push_bit 56 (v AND 0xFF) OR
     push_bit 40 (v AND 0xFF00) OR
     push_bit 24 (v AND 0xFF0000) OR
     push_bit 8 (v AND 0xFF000000) OR
     (drop_bit 8 v AND 0xFF000000) OR
     (drop_bit 24 v AND 0xFF0000) OR
     (drop_bit 40 v AND 0xFF00) OR
     (drop_bit 56 v AND 0xFF)"

definition GetNextSequence :: "'p KeySerializer \<Rightarrow> bytes list \<Rightarrow> 'p \<Rightarrow> error + 64 word" where
  "GetNextSequence S db t =
     (let key0 = (t, UINT64_MAX);
          it = Seek (NewIterator db) (Serialize S key0)
      in if \<not> Valid it then Inr 0
         else let it = Prev it
           in if \<not> Valid it then Inr 0
              else (case Unserialize S (key it) of
                      None \<Rightarrow> Inl ios_base_failure
                    | Some key2 \<Rightarrow>
                        let key1 = (fst key0, snd key2)
                        in if key1 \<noteq> key2 then Inr 0
                           else let v = swapByteOrder (snd key1) in Inr (v + 1)))"

text \<open>
  The spec's words (section 4.3, \<open>NextSequence\<close>): the key before the seek position
  is the greatest key below the probe; with no such key, or with one whose prefix
  fields differ, the sequence starts at 0; otherwise it is the decoded sequence plus 1.
\<close>

definition NextSequence :: "'p KeySerializer \<Rightarrow> bytes list \<Rightarrow> 'p \<Rightarrow> 64 word" where
  "NextSequence S db t =
     (let probe = Serialize S (t, UINT64_MAX);
          below = filter (\<lambda>k. k < probe) (sort (remdups db))
      in if below = [] then 0
         else (case Unserialize S (last below) of
                 None \<Rightarrow> 0
               | Some (p, s) \<Rightarrow> if p = t then swapByteOrder s + 1 else 0))"

text \<open>A key layout for concrete runs: one prefix byte, then the sequence as the
  eight bytes of the 64-bit field, lowest byte first.\<close>

definition le64 :: "64 word \<Rightarrow> bytes" where
  "le64 v = map (\<lambda>i. ucast (drop_bit (8 * i) v)) [0, 1, 2, 3, 4, 5, 6, 7]"

definition un_le64 :: "bytes \<Rightarrow> 64 word" where
  "un_le64 bs = foldr (\<lambda>b acc. ucast b OR push_bit 8 acc) (take 8 bs) 0"

definition byte_key :: "byte KeySerializer" where
  "byte_key = \<lparr>Serialize = (\<lambda>(p, s). p # le64 s),
               Unserialize = (\<lambda>bs. if length bs < 9 then None
                                    else Some (hd bs, un_le64 (tl bs)))\<rparr>"


subsection \<open>External collaborators of the wallet\<close>

type_synonym Scalar = "256 word"
type_synonym GroupElement = bytes
type_synonym secp256k1_pubkey = bytes
type_synonym ECDSAPrivateKey = bytes
type_synonym CKey = bytes
type_synonym PropertyId = "32 word"
type_synonym LelantusAmount = "64 word"
type_synonym LelantusIndex = "32 word"

text \<open>
  Modelled from the spec: the wallet key-retrieval collaborator (\<^verbatim>\<open>pwalletMain\<close>, a
  \<^verbatim>\<open>CWallet\<close>, is not in the sources). The record holds what the wallet code reads
  from it: whether it is locked, the master key id of its HD chain, what
  \<^verbatim>\<open>GetKey\<close> returns for a key id, and the key metadata.
\<close>

record CKeyMetadata =
  hdKeypath :: string
  hdMasterKeyID :: CKeyID

record CWallet =
  IsLocked :: bool
  masterKeyID :: CKeyID
  GetKey :: "CKeyID \<rightharpoonup> CKey"
  mapKeyMetadata :: "CKeyID \<rightharpoonup> CKeyMetadata"

text \<open>
  The cryptographic primitives, the HD key generator of the wallet
  (\<^verbatim>\<open>CWallet::GenerateNewKey\<close>, which returns the id of the new key or throws, and
  changes the wallet), the \<^verbatim>\<open>sscanf\<close> of the key path (\<open>Some (change, index)\<close>
  when both numbers are matched) and the constant
  \<^verbatim>\<open>BIP44_ELYSIUM_LELANTUSMINT_INDEX\<close> are declared outside the sources; they are
  parameters of the model. An exception of \<^verbatim>\<open>GenerateNewKey\<close> is
  \<open>external_failure\<close> with its message.
\<close>

record Env =
  CSHA256 :: "bytes \<Rightarrow> bytes"
  CHMAC_SHA512 :: "bytes \<Rightarrow> bytes \<Rightarrow> bytes"
  Hash :: "bytes \<Rightarrow> uint256"
  secp256k1_ec_pubkey_create :: "ECDSAPrivateKey \<Rightarrow> secp256k1_pubkey option"
  secp256k1_ec_pubkey_serialize :: "secp256k1_pubkey \<Rightarrow> bytes"
  memberFromSeed :: "bytes \<Rightarrow> Scalar"
  commit :: "GroupElement \<Rightarrow> Scalar \<Rightarrow> GroupElement \<Rightarrow> Scalar \<Rightarrow> GroupElement"
  get_g :: GroupElement
  get_h0 :: GroupElement
  GetPubCoinValueHash :: "GroupElement \<Rightarrow> uint256"
  GetSerialId :: "Scalar \<Rightarrow> uint160"
  GenerateNewKey :: "32 word \<Rightarrow> CWallet \<Rightarrow> (string + CKeyID) \<times> CWallet"
  sscanf_BIP44 :: "string \<Rightarrow> (32 word \<times> 32 word) option"
  BIP44_ELYSIUM_LELANTUSMINT_INDEX :: "32 word"

subsection \<open>Wallet data\<close>

record MintPoolEntry =
  entry_id :: MintEntryId
  entry_seedId :: CKeyID
  entry_index :: "32 word"

record LelantusPrivateKey =
  serial :: Scalar
  randomness :: Scalar
  ecdsaPrivateKey :: ECDSAPrivateKey

text \<open>\<^verbatim>\<open>lelantus::PrivateCoin\<close> as \<^verbatim>\<open>LelantusPrivateKey::GetPrivateCoin\<close> builds it.\<close>

record PrivateCoin =
  coin_serialNumber :: Scalar
  coin_v :: LelantusAmount
  coin_randomness :: Scalar
  coin_ecdsaSeckey :: bytes

text \<open>
  Modelled from the spec: the mint record and its chain state
  (\<^verbatim>\<open>lelantuswalletmodels.h\<close> is not in the sources). A default-constructed chain
  state is the unconfirmed one; a null \<^verbatim>\<open>uint256\<close> is 32 zero bytes.
\<close>

record LelantusMintChainState =
  cs_block :: int
  cs_group :: "32 word"
  cs_index :: "32 word"

definition LelantusMintChainState_default :: LelantusMintChainState where
  "LelantusMintChainState_default = \<lparr>cs_block = - 1, cs_group = 0, cs_index = 0\<rparr>"

definition uint256_null :: uint256 where
  "uint256_null = replicate 32 0"

definition IsNull :: "bytes \<Rightarrow> bool" where
  "IsNull b = list_all (\<lambda>x. x = 0) b"

record LelantusMintId =
  mintid_property :: PropertyId
  mintid_amount :: LelantusAmount
  mintid_id :: MintEntryId

record LelantusMint =
  property :: PropertyId
  amount :: LelantusAmount
  seedId :: CKeyID
  serialId :: uint160
  createdTx :: uint256
  chainState :: LelantusMintChainState
  spendTx :: uint256

definition new_LelantusMint :: "PropertyId \<Rightarrow> LelantusAmount \<Rightarrow> CKeyID \<Rightarrow> uint160 \<Rightarrow> LelantusMint" where
  "new_LelantusMint p a sid ser =
     \<lparr>property = p, amount = a, seedId = sid, serialId = ser, createdTx = uint256_null,
      chainState = LelantusMintChainState_default, spendTx = uint256_null\<rparr>"

subsection \<open>The wallet database\<close>

text \<open>
  Modelled from the spec: the store behind \<^verbatim>\<open>LelantusWallet::Database\<close>, which is
  pure virtual in \<^verbatim>\<open>lelantuswallet.h\<close> and has no implementation in the sources:
  mint records by mint id, mint ids by serial id, and the persisted pool, which is
  rewritten wholesale. The record of a mint id is the first pair of \<open>mints\<close> with
  that id; \<^verbatim>\<open>ListMints\<close> lists every stored id once, with its record. \<open>failing\<close> says which writes return \<^verbatim>\<open>false\<close>. A write
  through a transaction handle acts on the handle's copy of the database; the copy
  replaces the database at \<^verbatim>\<open>TxnCommit\<close> and is dropped when the handle is
  destroyed without it.
\<close>

datatype DbOp = OpWriteMint | OpWriteMintId | OpWriteMintPool

record Database =
  mints :: "(LelantusMintId \<times> LelantusMint) list"
  mintIds :: "(uint160 \<times> LelantusMintId) list"
  mintPoolData :: "MintPoolEntry list option"
  failing :: "DbOp \<Rightarrow> bool"

definition db_WriteMint :: "LelantusMintId \<Rightarrow> LelantusMint \<Rightarrow> Database \<Rightarrow> bool \<times> Database" where
  "db_WriteMint i m db =
     (if failing db OpWriteMint then (False, db)
      else (True, db\<lparr>mints := AList.update i m (mints db)\<rparr>))"

definition db_ReadMint :: "LelantusMintId \<Rightarrow> Database \<Rightarrow> LelantusMint option" where
  "db_ReadMint i db = map_of (mints db) i"

definition db_WriteMintId :: "uint160 \<Rightarrow> LelantusMintId \<Rightarrow> Database \<Rightarrow> bool \<times> Database" where
  "db_WriteMintId h i db =
     (if failing db OpWriteMintId then (False, db)
      else (True, db\<lparr>mintIds := AList.update h i (mintIds db)\<rparr>))"

definition db_WriteMintPool :: "MintPoolEntry list \<Rightarrow> Database \<Rightarrow> bool \<times> Database" where
  "db_WriteMintPool es db =
     (if failing db OpWriteMintPool then (False, db)
      else (True, db\<lparr>mintPoolData := Some es\<rparr>))"

definition db_ReadMintPool :: "Database \<Rightarrow> MintPoolEntry list option" where
  "db_ReadMintPool db = mintPoolData db"

definition db_ListMints :: "Database \<Rightarrow> (LelantusMintId \<times> LelantusMint) list" where
  "db_ListMints db = AList.clearjunk (mints db)"

subsection \<open>The wallet object and its mint pool\<close>

text \<open>
  \<open>mintPool\<close> holds the elements of the \<^verbatim>\<open>boost::multi_index_container\<close>. Index 0
  orders them by \<open>entry_index\<close> and is unique, index 1 hashes \<open>entry_id\<close> and is
  unique: \<open>pool_insert\<close> refuses an element that clashes on either, \<open>pool_seq\<close> is the
  iteration order of index 0 and \<open>pool_begin\<close> its first element.
\<close>

record LelantusWallet =
  database :: Database
  walletFile :: string
  mintPool :: "MintPoolEntry list"
  masterId :: uint160
  pwalletMain :: CWallet

definition MINTPOOL_CAPACITY :: nat where
  "MINTPOOL_CAPACITY = 20"

definition pool_insert :: "MintPoolEntry \<Rightarrow> MintPoolEntry list \<Rightarrow> MintPoolEntry list" where
  "pool_insert e p =
     (if \<exists>e'\<in>set p. entry_index e' = entry_index e \<or> entry_id e' = entry_id e then p
      else e # p)"

definition pool_seq :: "MintPoolEntry list \<Rightarrow> MintPoolEntry list" where
  "pool_seq p = sort_key entry_index p"

definition pool_begin :: "MintPoolEntry list \<Rightarrow> MintPoolEntry" where
  "pool_begin p = hd (pool_seq p)"

type_synonym 'a result = "(error + 'a) \<times> LelantusWallet"

subsection \<open>Seeds and private keys\<close>

definition BIP44ChangeIndex :: "Env \<Rightarrow> 32 word" where
  "BIP44ChangeIndex E = BIP44_ELYSIUM_LELANTUSMINT_INDEX E"

text \<open>\<^verbatim>\<open>GetSeedIndex\<close> returns the address index and, through \<^verbatim>\<open>change\<close>, the change
  number of the key path.\<close>

definition GetSeedIndex :: "Env \<Rightarrow> LelantusWallet \<Rightarrow> CKeyID \<Rightarrow> error + (32 word \<times> 32 word)" where
  "GetSeedIndex E st sid =
     (case mapKeyMetadata (pwalletMain st) sid of
        None \<Rightarrow> Inl (runtime_error ''key not found'')
      | Some meta \<Rightarrow>
          (case sscanf_BIP44 E (hdKeypath meta) of
             None \<Rightarrow> Inl (runtime_error ''Fail to match BIP44 path'')
           | Some (change, index) \<Rightarrow> Inr (index, change)))"

text \<open>The HMAC message is the seed index as its four bytes in memory, lowest first.\<close>

definition le32 :: "32 word \<Rightarrow> bytes" where
  "le32 v = map (\<lambda>i. ucast (drop_bit (8 * i) v)) [0, 1, 2, 3]"

definition GenerateSeed :: "Env \<Rightarrow> LelantusWallet \<Rightarrow> CKeyID \<Rightarrow> error + (uint512 \<times> 32 word)" where
  "GenerateSeed E st sid =
     (case GetKey (pwalletMain st) sid of
        None \<Rightarrow> Inl (runtime_error
                  ''Unable to retrieve generated key for mint seed. Is the wallet locked?'')
      | Some k \<Rightarrow>
          (case GetSeedIndex E st sid of
             Inl e \<Rightarrow> Inl e
           | Inr (seedIndex, change) \<Rightarrow>
               if change \<noteq> BIP44ChangeIndex E
               then Inl (invalid_argument ''BIP44 Change of seed id is invalid'')
               else Inr (CHMAC_SHA512 E k (le32 seedIndex), seedIndex)))"

definition GenerateNewSeed :: "Env \<Rightarrow> LelantusWallet \<Rightarrow> (CKeyID \<times> uint512 \<times> 32 word) result" where
  "GenerateNewSeed E st =
     (case GenerateNewKey E (BIP44ChangeIndex E) (pwalletMain st) of
        (Inl msg, w) \<Rightarrow> (Inl (external_failure msg), st\<lparr>pwalletMain := w\<rparr>)
      | (Inr sid, w) \<Rightarrow>
          (let st1 = st\<lparr>pwalletMain := w\<rparr>
           in case GenerateSeed E st1 sid of
                Inl e \<Rightarrow> (Inl e, st1)
              | Inr (seed, index) \<Rightarrow> (Inr (sid, seed, index), st1)))"

definition GetPublicKey :: "Env \<Rightarrow> ECDSAPrivateKey \<Rightarrow> secp256k1_pubkey option" where
  "GetPublicKey E priv = secp256k1_ec_pubkey_create E priv"

definition GenerateSerial :: "Env \<Rightarrow> secp256k1_pubkey \<Rightarrow> error + Scalar" where
  "GenerateSerial E pubkey =
     (let compressedPub = secp256k1_ec_pubkey_serialize E pubkey
      in if length compressedPub \<noteq> 33
         then Inl (runtime_error ''Compressed public key size is invalid.'')
         else Inr (memberFromSeed E (CSHA256 E compressedPub)))"

text \<open>
  The loop \<^verbatim>\<open>do { signatureKey = SHA256(signatureKey) } while (!GetPublicKey(...))\<close>.
  Nothing bounds its iterations, so the model counts them with \<open>fuel\<close>: \<open>None\<close> is
  a loop that has not ended within \<open>fuel\<close> iterations.
\<close>

fun hash_until_valid :: "Env \<Rightarrow> nat \<Rightarrow> ECDSAPrivateKey \<Rightarrow> (ECDSAPrivateKey \<times> secp256k1_pubkey) option" where
  "hash_until_valid E 0 signatureKey = None"
| "hash_until_valid E (Suc fuel) signatureKey =
     (let signatureKey' = CSHA256 E signatureKey
      in case GetPublicKey E signatureKey' of
           Some pubkey \<Rightarrow> Some (signatureKey', pubkey)
         | None \<Rightarrow> hash_until_valid E fuel signatureKey')"

text \<open>\<^verbatim>\<open>GeneratePrivateKey(uint512 const &seed)\<close>.\<close>

definition GeneratePrivateKey_seed :: "Env \<Rightarrow> nat \<Rightarrow> uint512 \<Rightarrow> (error + LelantusPrivateKey) option" where
  "GeneratePrivateKey_seed E fuel seed =
     (let randomnessSeed = take 32 (drop 32 seed);
          rnd = memberFromSeed E randomnessSeed;
          signatureKey = take 32 seed
      in case hash_until_valid E fuel signatureKey of
           None \<Rightarrow> None
         | Some (signatureKey', pubkey) \<Rightarrow>
             (case GenerateSerial E pubkey of
                Inl e \<Rightarrow> Some (Inl e)
              | Inr ser \<Rightarrow>
                  Some (Inr \<lparr>serial = ser, randomness = rnd, ecdsaPrivateKey = signatureKey'\<rparr>)))"

text \<open>\<^verbatim>\<open>GeneratePrivateKey(CKeyID const &seedId)\<close>.\<close>

definition GeneratePrivateKey :: "Env \<Rightarrow> nat \<Rightarrow> LelantusWallet \<Rightarrow> CKeyID \<Rightarrow> (error + LelantusPrivateKey) option" where
  "GeneratePrivateKey E fuel st sid =
     (case GenerateSeed E st sid of
        Inl e \<Rightarrow> Some (Inl e)
      | Inr (seed, seedIndex) \<Rightarrow> GeneratePrivateKey_seed E fuel seed)"

subsection \<open>Mint identity\<close>

text \<open>\<^verbatim>\<open>MintEntryId(serial, randomness, seedId)\<close>: the stream holds the 32 bytes of
  the hash of the public coin, then the 20 bytes of the seed id.\<close>

definition MintEntryId :: "Env \<Rightarrow> Scalar \<Rightarrow> Scalar \<Rightarrow> uint160 \<Rightarrow> MintEntryId" where
  "MintEntryId E ser rnd sid =
     (let pubcoin = commit E (get_g E) ser (get_h0 E) rnd;
          hashPub = GetPubCoinValueHash E pubcoin
      in Hash E (hashPub @ sid))"

text \<open>\<^verbatim>\<open>MintEntryId(lelantus::PrivateCoin const &coin, uint160 const &seedId)\<close>.\<close>

definition MintEntryId_coin :: "Env \<Rightarrow> PrivateCoin \<Rightarrow> uint160 \<Rightarrow> MintEntryId" where
  "MintEntryId_coin E coin sid = MintEntryId E (coin_serialNumber coin) (coin_randomness coin) sid"

definition GetPrivateCoin :: "LelantusPrivateKey \<Rightarrow> LelantusAmount \<Rightarrow> PrivateCoin" where
  "GetPrivateCoin k a =
     \<lparr>coin_serialNumber = serial k, coin_v = a, coin_randomness = randomness k,
      coin_ecdsaSeckey = ecdsaPrivateKey k\<rparr>"

subsection \<open>Mint pool state\<close>

definition SaveMintPool :: "LelantusWallet \<Rightarrow> unit result" where
  "SaveMintPool st =
     (let poolData = pool_seq (mintPool st)
      in case db_WriteMintPool poolData (database st) of
           (False, db) \<Rightarrow> (Inl (runtime_error ''fail to save mint pool to DB''), st)
         | (True, db) \<Rightarrow> (Inr (), st\<lparr>database := db\<rparr>))"

definition LoadMintPool :: "LelantusWallet \<Rightarrow> LelantusWallet" where
  "LoadMintPool st =
     (case db_ReadMintPool (database st) of
        None \<Rightarrow> st\<lparr>mintPool := []\<rparr>
      | Some poolData \<Rightarrow> st\<lparr>mintPool := foldl (\<lambda>p e. pool_insert e p) [] poolData\<rparr>)"

definition RemoveFromMintPool :: "MintEntryId \<Rightarrow> LelantusWallet \<Rightarrow> bool result" where
  "RemoveFromMintPool i st =
     (if \<exists>e\<in>set (mintPool st). entry_id e = i
      then (case SaveMintPool (st\<lparr>mintPool := filter (\<lambda>e. entry_id e \<noteq> i) (mintPool st)\<rparr>) of
              (Inl e, st') \<Rightarrow> (Inl e, st')
            | (Inr u, st') \<Rightarrow> (Inr True, st'))
      else (Inr False, st))"

text \<open>
  \<^verbatim>\<open>RemoveInvalidMintPoolEntries\<close> walks index 0 and calls \<^verbatim>\<open>mintPool.erase(it)\<close>
  on an entry whose key metadata is missing or belongs to another master key, and then
  increments \<open>it\<close>. \<^verbatim>\<open>erase\<close> invalidates the iterator of the erased element, so
  the container does not define what the increment does. The model follows a build
  without iterator checking: the walk goes on at the entry that followed the erased
  one in the index order, so that every entry of the pool is visited once.
\<close>

definition entry_invalid :: "LelantusWallet \<Rightarrow> MintPoolEntry \<Rightarrow> bool" where
  "entry_invalid st e =
     (case mapKeyMetadata (pwalletMain st) (entry_seedId e) of
        None \<Rightarrow> True
      | Some meta \<Rightarrow> hdMasterKeyID meta \<noteq> masterId st)"

fun RemoveInvalid_loop :: "LelantusWallet \<Rightarrow> MintPoolEntry list \<Rightarrow> bool \<Rightarrow> bool \<times> LelantusWallet" where
  "RemoveInvalid_loop st [] updated = (updated, st)"
| "RemoveInvalid_loop st (e # rest) updated =
     (if entry_invalid st e
      then RemoveInvalid_loop (st\<lparr>mintPool := removeAll e (mintPool st)\<rparr>) rest True
      else RemoveInvalid_loop st rest updated)"

definition RemoveInvalidMintPoolEntries :: "LelantusWallet \<Rightarrow> unit result" where
  "RemoveInvalidMintPoolEntries st =
     (case RemoveInvalid_loop st (pool_seq (mintPool st)) False of
        (updated, st') \<Rightarrow> if updated then SaveMintPool st' else (Inr (), st'))"

text \<open>
  \<^verbatim>\<open>FillMintPool\<close>: the loop body derives a seed and a private key and counts; the
  insertion into \<open>mintPool\<close> is commented out in the source. \<open>fuel\<close> bounds the
  iterations of the model; the loop condition is tested before the fuel is.
\<close>

fun FillMintPool_loop :: "Env \<Rightarrow> nat \<Rightarrow> nat \<Rightarrow> LelantusWallet \<Rightarrow> 64 word \<Rightarrow> (64 word result) option" where
  "FillMintPool_loop E hfuel fuel st generatedCoins =
     (if length (mintPool st) < MINTPOOL_CAPACITY
      then (case fuel of
              0 \<Rightarrow> None
            | Suc fuel' \<Rightarrow>
                (case GenerateNewSeed E st of
                   (Inl e, st1) \<Rightarrow> Some (Inl e, st1)
                 | (Inr (sid, seed, index), st1) \<Rightarrow>
                     (case GeneratePrivateKey_seed E hfuel seed of
                        None \<Rightarrow> None
                      | Some (Inl e) \<Rightarrow> Some (Inl e, st1)
                      | Some (Inr privKey) \<Rightarrow>
                          FillMintPool_loop E hfuel fuel' st1 (generatedCoins + 1))))
      else Some (Inr generatedCoins, st))"

declare FillMintPool_loop.simps [simp del]

definition FillMintPool :: "Env \<Rightarrow> nat \<Rightarrow> LelantusWallet \<Rightarrow> (64 word result) option" where
  "FillMintPool E fuel st =
     (case FillMintPool_loop E fuel fuel st 0 of
        None \<Rightarrow> None
      | Some (Inl e, st') \<Rightarrow> Some (Inl e, st')
      | Some (Inr generatedCoins, st') \<Rightarrow>
          if generatedCoins \<noteq> 0
          then (case SaveMintPool st' of
                  (Inl e, st'') \<Rightarrow> Some (Inl e, st'')
                | (Inr u, st'') \<Rightarrow> Some (Inr generatedCoins, st''))
          else Some (Inr generatedCoins, st'))"

definition ReloadMasterKey :: "Env \<Rightarrow> nat \<Rightarrow> LelantusWallet \<Rightarrow> (unit result) option" where
  "ReloadMasterKey E fuel st =
     (if IsLocked (pwalletMain st)
      then Some (Inl (runtime_error ''Unable to reload master key because wallet is locked''), st)
      else let st1 = st\<lparr>masterId := masterKeyID (pwalletMain st)\<rparr>
        in if IsNull (masterId st1) then Some (Inl (runtime_error ''Master id is null''), st1)
           else let st2 = LoadMintPool st1
             in case RemoveInvalidMintPoolEntries st2 of
                  (Inl e, st3) \<Rightarrow> Some (Inl e, st3)
                | (Inr u, st3) \<Rightarrow>
                    (case FillMintPool E fuel st3 of
                       None \<Rightarrow> None
                     | Some (Inl e, st4) \<Rightarrow> Some (Inl e, st4)
                     | Some (Inr n, st4) \<Rightarrow> Some (Inr (), st4)))"

subsection \<open>Mint lifecycle\<close>

definition WriteMint :: "Env \<Rightarrow> nat \<Rightarrow> LelantusWallet \<Rightarrow> LelantusMintId \<Rightarrow> LelantusMint \<Rightarrow> (unit result) option" where
  "WriteMint E fuel st i mint =
     (case db_WriteMint i mint (database st) of
        (False, db) \<Rightarrow> Some (Inl (runtime_error ''fail to write hdmint''), st)
      | (True, db1) \<Rightarrow>
          (let st1 = st\<lparr>database := db1\<rparr>
           in case db_WriteMintId (serialId mint) i (database st1) of
                (False, db) \<Rightarrow> Some (Inl (runtime_error ''fail to record id''), st1)
              | (True, db2) \<Rightarrow>
                  (let st2 = st1\<lparr>database := db2\<rparr>
                   in case RemoveFromMintPool (mintid_id i) st2 of
                        (Inl e, st3) \<Rightarrow> Some (Inl e, st3)
                      | (Inr removed, st3) \<Rightarrow>
                          (case FillMintPool E fuel st3 of
                             None \<Rightarrow> None
                           | Some (Inl e, st4) \<Rightarrow> Some (Inl e, st4)
                           | Some (Inr n, st4) \<Rightarrow> Some (Inr (), st4)))))"

text \<open>The two exceptions \<^verbatim>\<open>WriteMint\<close> throws when a database write returns false.\<close>

definition write_failure :: "error \<Rightarrow> bool" where
  "write_failure e \<longleftrightarrow>
     e = runtime_error ''fail to write hdmint'' \<or> e = runtime_error ''fail to record id''"

text \<open>The part of \<^verbatim>\<open>GenerateMint\<close> after the seed id is settled (source lines 253 to 264).\<close>

definition GenerateMint_with :: "Env \<Rightarrow> nat \<Rightarrow> LelantusWallet \<Rightarrow> PropertyId \<Rightarrow> LelantusAmount \<Rightarrow> CKeyID \<Rightarrow> (LelantusMintId result) option" where
  "GenerateMint_with E fuel st prop amt sid =
     (case GeneratePrivateKey E fuel st sid of
        None \<Rightarrow> None
      | Some (Inl e) \<Rightarrow> Some (Inl e, st)
      | Some (Inr priv) \<Rightarrow>
          (let mintId = MintEntryId E (serial priv) (randomness priv) sid;
               serId = GetSerialId E (serial priv);
               mint = new_LelantusMint prop amt sid serId;
               i = \<lparr>mintid_property = prop, mintid_amount = amt, mintid_id = mintId\<rparr>
           in case WriteMint E fuel st i mint of
                None \<Rightarrow> None
              | Some (Inl e, st') \<Rightarrow> Some (Inl e, st')
              | Some (Inr u, st') \<Rightarrow> Some (Inr i, st')))"

definition GenerateMint :: "Env \<Rightarrow> nat \<Rightarrow> LelantusWallet \<Rightarrow> PropertyId \<Rightarrow> LelantusAmount \<Rightarrow> CKeyID option \<Rightarrow> (LelantusMintId result) option" where
  "GenerateMint E fuel st prop amt seedIdOpt =
     (case seedIdOpt of
        Some sid \<Rightarrow> GenerateMint_with E fuel st prop amt sid
      | None \<Rightarrow>
          if IsLocked (pwalletMain st) then Some (Inl WalletLocked, st)
          else if mintPool st = []
          then (case ReloadMasterKey E fuel st of
                  None \<Rightarrow> None
                | Some (Inl e, st1) \<Rightarrow> Some (Inl e, st1)
                | Some (Inr u, st1) \<Rightarrow>
                    if mintPool st1 = [] then Some (Inl (runtime_error ''Mint pool is empty''), st1)
                    else GenerateMint_with E fuel st1 prop amt (entry_seedId (pool_begin (mintPool st1))))
          else GenerateMint_with E fuel st prop amt (entry_seedId (pool_begin (mintPool st))))"

text \<open>\<^verbatim>\<open>ClearMintsChainState\<close>: the writes go through the transaction handle \<open>db\<close>.\<close>

fun ClearMints_loop :: "(LelantusMintId \<times> LelantusMint) list \<Rightarrow> Database \<Rightarrow> bool \<times> Database" where
  "ClearMints_loop [] db = (True, db)"
| "ClearMints_loop ((i, m) # ms) db =
     (let m' = m\<lparr>chainState := LelantusMintChainState_default, spendTx := uint256_null\<rparr>
      in case db_WriteMint i m' db of
           (False, db') \<Rightarrow> (False, db')
         | (True, db') \<Rightarrow> ClearMints_loop ms db')"

definition ClearMintsChainState :: "LelantusWallet \<Rightarrow> unit result" where
  "ClearMintsChainState st =
     (let db = database st;
          ms = db_ListMints db
      in case ClearMints_loop ms db of
           (False, db') \<Rightarrow> (Inl (runtime_error (''Failed to write '' @ walletFile st)), st)
         | (True, db') \<Rightarrow> (Inr (), st\<lparr>database := db'\<rparr>))"

subsection \<open>A small instance for concrete runs\<close>

text \<open>
  Stand-ins for the collaborators, small enough to evaluate: the hash adds one to
  every byte, a signing key is valid when its first byte is even, and a key path is
  two digits, the change number and the address index.
\<close>

definition demo_env :: Env where
  "demo_env =
     \<lparr>CSHA256 = map (\<lambda>b. b + 1),
      CHMAC_SHA512 = (\<lambda>k msg. take 64 (k @ msg @ replicate 64 0)),
      Hash = (\<lambda>bs. take 32 (rev bs @ replicate 32 0)),
      secp256k1_ec_pubkey_create =
        (\<lambda>k. case k of [] \<Rightarrow> None | b # bs \<Rightarrow> if b AND 1 = 0 then Some (k @ k) else None),
      secp256k1_ec_pubkey_serialize = (\<lambda>pk. take 33 pk),
      memberFromSeed = (\<lambda>bs. case bs of [] \<Rightarrow> 0 | b # bs' \<Rightarrow> ucast b),
      commit = (\<lambda>g s h r. g @ [ucast s] @ h @ [ucast r]),
      get_g = [1],
      get_h0 = [2],
      GetPubCoinValueHash = (\<lambda>p. take 32 (p @ replicate 32 0)),
      GetSerialId = (\<lambda>s. [ucast s]),
      GenerateNewKey =
        (\<lambda>change w. (Inr [9],
           w\<lparr>GetKey := (GetKey w)([9] \<mapsto> replicate 32 3),
             mapKeyMetadata := (mapKeyMetadata w)
               ([9] \<mapsto> \<lparr>hdKeypath = ''29'', hdMasterKeyID = masterKeyID w\<rparr>)\<rparr>)),
      sscanf_BIP44 =
        (\<lambda>path. case path of [c, d] \<Rightarrow> Some (of_char c - 48, of_char d - 48) | _ \<Rightarrow> None),
      BIP44_ELYSIUM_LELANTUSMINT_INDEX = 2\<rparr>"

definition demo_wallet :: CWallet where
  "demo_wallet =
     \<lparr>IsLocked = False, masterKeyID = [7],
      GetKey = (\<lambda>k. Some (take 32 (k @ replicate 32 4))),
      mapKeyMetadata = (\<lambda>k. Some \<lparr>hdKeypath = ''25'', hdMasterKeyID = [7]\<rparr>)\<rparr>"

definition demo_entry :: "byte \<Rightarrow> MintPoolEntry" where
  "demo_entry b = \<lparr>entry_id = [b], entry_seedId = [b], entry_index = ucast b\<rparr>"

definition demo_pool :: "MintPoolEntry list" where
  "demo_pool =
     map demo_entry [0, 1, 2, 3, 4, 5, 6, 7, 8, 9, 10, 11, 12, 13, 14, 15, 16, 17, 18, 19]"

text \<open>Two pool entries whose ids are the mint entry ids of the keys derived from their
  seed ids; the second is the older one.\<close>

definition demo_pool2 :: "MintPoolEntry list" where
  "demo_pool2 =
     [\<lparr>entry_id = MintEntryId demo_env 5 5 [3], entry_seedId = [3], entry_index = 7\<rparr>,
      \<lparr>entry_id = MintEntryId demo_env 3 5 [1], entry_seedId = [1], entry_index = 4\<rparr>]"

definition no_faults :: "DbOp \<Rightarrow> bool" where
  "no_faults op = False"

definition fails_only :: "DbOp \<Rightarrow> DbOp \<Rightarrow> bool" where
  "fails_only f op \<longleftrightarrow> op = f"

definition demo_db :: "MintPoolEntry list option \<Rightarrow> (DbOp \<Rightarrow> bool) \<Rightarrow> Database" where
  "demo_db pool faults = \<lparr>mints = [], mintIds = [], mintPoolData = pool, failing = faults\<rparr>"

definition demo_state :: "MintPoolEntry list \<Rightarrow> Database \<Rightarrow> LelantusWallet" where
  "demo_state pool db =
     \<lparr>database = db, walletFile = ''wallet.dat'', mintPool = pool, masterId = [7],
      pwalletMain = demo_wallet\<rparr>"



definition demo_mintid :: "byte \<Rightarrow> LelantusMintId" where
  "demo_mintid b = \<lparr>mintid_property = 1, mintid_amount = 10, mintid_id = [b]\<rparr>"

definition demo_mint :: "byte \<Rightarrow> int \<Rightarrow> LelantusMint" where
  "demo_mint b blk =
     (new_LelantusMint 1 10 [b] [b])
       \<lparr>createdTx := replicate 32 b,
        chainState := \<lparr>cs_block = blk, cs_group = 0, cs_index = ucast b\<rparr>,
        spendTx := replicate 32 9\<rparr>"

section \<open>Properties\<close>

subsection \<open>Sequence allocation\<close>

lemma takeWhile_less_sorted:
  fixes xs :: "('a::linorder) list"
  shows "sorted xs \<Longrightarrow> takeWhile (\<lambda>k. k < p) xs = filter (\<lambda>k. k < p) xs"
proof (induction xs)
  case Nil
  then show ?case by simp
next
  case (Cons a xs)
  show ?case
  proof (cases "a < p")
    case True
    with Cons show ?thesis by simp
  next
    case False
    with Cons.prems have "\<forall>x\<in>set xs. \<not> x < p" by auto
    then have "filter (\<lambda>k. k < p) xs = []" by (simp add: filter_empty_conv)
    with False show ?thesis by simp
  qed
qed

lemma Seek_Valid:
  "Valid (Seek (NewIterator db) p) \<longleftrightarrow> (\<exists>k\<in>set db. \<not> k < p)"
proof -
  let ?ks = "sort (remdups db)"
  have "length (takeWhile (\<lambda>k. k < p) ?ks) < length ?ks \<longleftrightarrow> takeWhile (\<lambda>k. k < p) ?ks \<noteq> ?ks"
    using length_takeWhile_le [of "\<lambda>k. k < p" ?ks]
    by (simp add: list_eq_iff_nth_eq nat_less_le takeWhile_nth)
  also have "\<dots> \<longleftrightarrow> (\<exists>k\<in>set ?ks. \<not> k < p)"
    by (simp add: takeWhile_eq_all_conv)
  finally show ?thesis
    by (simp add: Valid_def Seek_def NewIterator_def Let_def)
qed

lemma Prev_Seek_Valid:
  assumes "Valid (Seek (NewIterator db) p)"
  shows "Valid (Prev (Seek (NewIterator db) p)) \<longleftrightarrow> (\<exists>k\<in>set db. k < p)"
proof -
  let ?ks = "sort (remdups db)"
  let ?tw = "takeWhile (\<lambda>k. k < p) ?ks"
  have tw: "?tw = filter (\<lambda>k. k < p) ?ks"
    by (rule takeWhile_less_sorted) simp
  have "length ?tw \<noteq> 0 \<longleftrightarrow> (\<exists>k\<in>set db. k < p)"
    unfolding tw by (auto simp: filter_empty_conv)
  moreover from assms have "cursor (Seek (NewIterator db) p) = Some (length ?tw)"
    by (auto simp: Valid_def Seek_def NewIterator_def Let_def split: if_splits)
  ultimately show ?thesis
    by (cases "length ?tw") (simp_all add: Valid_def Prev_def)
qed

lemma Prev_Seek_key:
  assumes "Valid (Seek (NewIterator db) p)" and "k \<in> set db" and "k < p"
    and "\<forall>k'\<in>set db. k' < p \<longrightarrow> k' \<le> k"
  shows "key (Prev (Seek (NewIterator db) p)) = k"
proof -
  let ?ks = "sort (remdups db)"
  let ?tw = "takeWhile (\<lambda>k. k < p) ?ks"
  have tw: "?tw = filter (\<lambda>k. k < p) ?ks"
    by (rule takeWhile_less_sorted) simp
  from assms(2,3) have kin: "k \<in> set ?tw"
    unfolding tw by simp
  then have ne: "?tw \<noteq> []" by auto
  then obtain m where m: "length ?tw = Suc m"
    by (cases ?tw) auto
  have cur: "cursor (Seek (NewIterator db) p) = Some (Suc m)"
    using assms(1) m by (auto simp: Valid_def Seek_def NewIterator_def Let_def split: if_splits)
  have "?ks ! m = ?tw ! m"
    using m by (simp add: takeWhile_nth)
  also have "\<dots> = last ?tw"
    using m ne by (simp add: last_conv_nth)
  finally have key_eq: "key (Prev (Seek (NewIterator db) p)) = last ?tw"
    using cur by (simp add: key_def Prev_def Seek_def NewIterator_def Let_def)
  have "sorted ?tw" unfolding tw by (simp add: filter_sort)
  with kin have "k \<le> last ?tw"
    by (metis ne in_set_conv_nth last_conv_nth sorted_nth_mono Suc_leI diff_Suc_1 le_refl less_Suc_eq_le m)
  moreover have "last ?tw \<in> set ?tw" using ne by simp
  then have "last ?tw \<in> set db \<and> last ?tw < p"
    unfolding tw by auto
  with assms(4) have "last ?tw \<le> k" by blast
  ultimately show ?thesis using key_eq by simp
qed

lemma GetNextSequence_cases:
  "((\<forall>k\<in>set db. k < Serialize S (t, UINT64_MAX)) \<longrightarrow> GetNextSequence S db t = Inr 0) \<and>
   ((\<forall>k\<in>set db. Serialize S (t, UINT64_MAX) \<le> k) \<longrightarrow> GetNextSequence S db t = Inr 0) \<and>
   ((\<exists>k'\<in>set db. Serialize S (t, UINT64_MAX) \<le> k') \<and>
    k \<in> set db \<and> k < Serialize S (t, UINT64_MAX) \<and>
    (\<forall>k'\<in>set db. k' < Serialize S (t, UINT64_MAX) \<longrightarrow> k' \<le> k) \<longrightarrow>
      GetNextSequence S db t =
        (case Unserialize S k of
           None \<Rightarrow> Inl ios_base_failure
         | Some (p, s) \<Rightarrow> if p = t then Inr (swapByteOrder s + 1) else Inr 0))"
proof (intro conjI impI)
  let ?p = "Serialize S (t, UINT64_MAX)"
  {
    assume "\<forall>k\<in>set db. k < ?p"
    then have "\<not> Valid (Seek (NewIterator db) ?p)"
      by (simp add: Seek_Valid)
    then show "GetNextSequence S db t = Inr 0"
      by (simp add: GetNextSequence_def Let_def)
  next
    assume a: "\<forall>k\<in>set db. ?p \<le> k"
    show "GetNextSequence S db t = Inr 0"
    proof (cases "Valid (Seek (NewIterator db) ?p)")
      case True
      with a have "\<not> Valid (Prev (Seek (NewIterator db) ?p))"
        by (auto simp: Prev_Seek_Valid)
      with True show ?thesis by (simp add: GetNextSequence_def Let_def)
    next
      case False
      then show ?thesis by (simp add: GetNextSequence_def Let_def)
    qed
  next
    assume a: "(\<exists>k'\<in>set db. ?p \<le> k') \<and> k \<in> set db \<and> k < ?p \<and>
      (\<forall>k'\<in>set db. k' < ?p \<longrightarrow> k' \<le> k)"
    then have v1: "Valid (Seek (NewIterator db) ?p)"
      by (auto simp: Seek_Valid)
    with a have v2: "Valid (Prev (Seek (NewIterator db) ?p))"
      by (auto simp: Prev_Seek_Valid)
    from a v1 have k: "key (Prev (Seek (NewIterator db) ?p)) = k"
      by (intro Prev_Seek_key) auto
    show "GetNextSequence S db t =
        (case Unserialize S k of
           None \<Rightarrow> Inl ios_base_failure
         | Some (p, s) \<Rightarrow> if p = t then Inr (swapByteOrder s + 1) else Inr 0)"
      using v1 v2 k by (auto simp: GetNextSequence_def Let_def split: option.splits)
  }
qed

text \<open>
  C1, as the source has it. With \<open>probe\<close> the serialized key of the prefix fields and
  \<^verbatim>\<open>UINT64_MAX\<close>, \<open>GetNextSequence\<close> returns 0 when no key of the store is at or
  above the probe (the iterator is not valid after the seek), returns 0 when no key
  is below the probe, and otherwise looks at the greatest key \<open>k\<close> below the probe:
  if \<open>k\<close> is too short to decode the stream throws, if its prefix fields differ from
  the requested ones the result is 0, and else it is the decoded sequence, byte
  swapped, plus 1. In particular, over a store none of whose keys decodes to the
  requested prefix fields, the function returns 0 unless the stream throws.
\<close>

theorem GetNextSequence_result:
  "((\<forall>k\<in>set db. k < Serialize S (t, UINT64_MAX)) \<longrightarrow> GetNextSequence S db t = Inr 0) \<and>
   ((\<forall>k\<in>set db. Serialize S (t, UINT64_MAX) \<le> k) \<longrightarrow> GetNextSequence S db t = Inr 0) \<and>
   ((\<exists>k'\<in>set db. Serialize S (t, UINT64_MAX) \<le> k') \<and>
    k \<in> set db \<and> k < Serialize S (t, UINT64_MAX) \<and>
    (\<forall>k'\<in>set db. k' < Serialize S (t, UINT64_MAX) \<longrightarrow> k' \<le> k) \<longrightarrow>
      GetNextSequence S db t =
        (case Unserialize S k of
           None \<Rightarrow> Inl ios_base_failure
         | Some (p, s) \<Rightarrow> if p = t then Inr (swapByteOrder s + 1) else Inr 0)) \<and>
   ((\<forall>k'\<in>set db. \<forall>s. Unserialize S k' \<noteq> Some (t, s)) \<longrightarrow>
      GetNextSequence S db t = Inr 0 \<or> GetNextSequence S db t = Inl ios_base_failure)"
proof -
  let ?p = "Serialize S (t, UINT64_MAX)"
  note c = GetNextSequence_cases [of db S t]
  have "GetNextSequence S db t = Inr 0 \<or> GetNextSequence S db t = Inl ios_base_failure"
    if none: "\<forall>k'\<in>set db. \<forall>s. Unserialize S k' \<noteq> Some (t, s)"
  proof (cases "(\<forall>k\<in>set db. k < ?p) \<or> (\<forall>k\<in>set db. ?p \<le> k)")
    case True
    with c [of k] show ?thesis by blast
  next
    case False
    let ?B = "{k' \<in> set db. k' < ?p}"
    from False have ne: "?B \<noteq> {}" and above: "\<exists>k'\<in>set db. ?p \<le> k'"
      by (auto simp: not_le not_less)
    have fin: "finite ?B" by simp
    let ?m = "Max ?B"
    from Max_in [OF fin ne] have m: "?m \<in> set db" "?m < ?p" by auto
    have "\<forall>k'\<in>set db. k' < ?p \<longrightarrow> k' \<le> ?m"
      using Max_ge [OF fin] by simp
    with c [of ?m] above m have r: "GetNextSequence S db t =
        (case Unserialize S ?m of
           None \<Rightarrow> Inl ios_base_failure
         | Some (p, s) \<Rightarrow> if p = t then Inr (swapByteOrder s + 1) else Inr 0)"
      by blast
    show ?thesis
    proof (cases "Unserialize S ?m")
      case None
      with r show ?thesis by simp
    next
      case (Some q)
      obtain p' s' where q: "q = (p', s')" by (cases q)
      with Some none m(1) have "p' \<noteq> t" by auto
      with r Some q show ?thesis by simp
    qed
  qed
  with c [of k] show ?thesis by blast
qed

theorem GetNextSequence_result_witness:
  "GetNextSequence byte_key [[1, 0, 0, 0, 0, 0, 0, 0, 2], [1, 0, 0, 0, 0, 0, 0, 0, 0], [2]] 1 = Inr 3 \<and>
   GetNextSequence byte_key [[1, 0, 0, 0, 0, 0, 0, 0, 2]] 1 = Inr 0 \<and>
   GetNextSequence byte_key [[2]] 1 = Inr 0"
proof -
  let ?db = "[[1, 0, 0, 0, 0, 0, 0, 0, 2], [1, 0, 0, 0, 0, 0, 0, 0, 0], [2 :: byte]]"
  let ?p = "Serialize byte_key (1, UINT64_MAX)"
  have h3: "(\<exists>k'\<in>set ?db. ?p \<le> k') \<and> [1, 0, 0, 0, 0, 0, 0, 0, 2] \<in> set ?db \<and>
      [1, 0, 0, 0, 0, 0, 0, 0, 2] < ?p \<and> (\<forall>k'\<in>set ?db. k' < ?p \<longrightarrow> k' \<le> [1, 0, 0, 0, 0, 0, 0, 0, 2])"
    by code_simp
  have h1: "\<forall>k\<in>set [[1, 0, 0, 0, 0, 0, 0, 0, 2 :: byte]]. k < ?p"
    by code_simp
  have h2: "\<forall>k\<in>set [[2 :: byte]]. ?p \<le> k"
    by code_simp
  have e: "(case Unserialize byte_key [1, 0, 0, 0, 0, 0, 0, 0, 2] of
           None \<Rightarrow> Inl ios_base_failure
         | Some (p, s) \<Rightarrow> if p = 1 then Inr (swapByteOrder s + 1) else Inr 0) = Inr 3"
    by code_simp
  from GetNextSequence_result [of ?db byte_key 1 "[1, 0, 0, 0, 0, 0, 0, 0, 2]"] h3
  have "GetNextSequence byte_key ?db 1 =
      (case Unserialize byte_key [1, 0, 0, 0, 0, 0, 0, 0, 2] of
           None \<Rightarrow> Inl ios_base_failure
         | Some (p, s) \<Rightarrow> if p = 1 then Inr (swapByteOrder s + 1) else Inr 0)" by blast
  from this e have "GetNextSequence byte_key ?db 1 = Inr 3" by (rule trans)
  moreover from GetNextSequence_result [of "[[1, 0, 0, 0, 0, 0, 0, 0, 2]]" byte_key 1] h1
  have "GetNextSequence byte_key [[1, 0, 0, 0, 0, 0, 0, 0, 2]] 1 = Inr 0" by blast
  moreover from GetNextSequence_result [of "[[2]]" byte_key 1] h2
  have "GetNextSequence byte_key [[2]] 1 = Inr 0" by blast
  ultimately show ?thesis by blast
qed

text \<open>
  The claim as worded does not hold: over a store whose only key is the prefix 1
  with sequence 0, no key is at or above the probe, so the source returns 0, where
  the greatest key below the probe carries sequence 0 and the spec's words give 1.
\<close>

theorem GetNextSequence_counterexample:
  "GetNextSequence byte_key [[1, 0, 0, 0, 0, 0, 0, 0, 0]] 1 \<noteq>
     Inr (NextSequence byte_key [[1, 0, 0, 0, 0, 0, 0, 0, 0]] 1)"
  by code_simp

subsection \<open>Key derivation\<close>

lemma hash_until_valid_Some:
  "hash_until_valid E fuel k = Some (k', pk) \<Longrightarrow>
     \<exists>n<fuel. k' = (CSHA256 E ^^ Suc n) k \<and> GetPublicKey E k' = Some pk \<and>
        (\<forall>m<n. GetPublicKey E ((CSHA256 E ^^ Suc m) k) = None)"
proof (induction fuel arbitrary: k)
  case 0
  then show ?case by simp
next
  case (Suc fuel)
  show ?case
  proof (cases "GetPublicKey E (CSHA256 E k)")
    case (Some pk')
    with Suc.prems have "k' = CSHA256 E k" "pk' = pk"
      by (simp_all add: Let_def)
    with Some show ?thesis
      by (intro exI [of _ 0]) simp
  next
    case None
    with Suc.prems have "hash_until_valid E fuel (CSHA256 E k) = Some (k', pk)"
      by (simp add: Let_def)
    from Suc.IH [OF this] obtain n where n: "n < fuel"
      "k' = (CSHA256 E ^^ Suc n) (CSHA256 E k)" "GetPublicKey E k' = Some pk"
      "\<forall>m<n. GetPublicKey E ((CSHA256 E ^^ Suc m) (CSHA256 E k)) = None"
      by blast
    have "\<forall>m<Suc n. GetPublicKey E ((CSHA256 E ^^ Suc m) k) = None"
    proof (intro allI impI)
      fix m assume "m < Suc n"
      then show "GetPublicKey E ((CSHA256 E ^^ Suc m) k) = None"
        using None n(4) by (cases m) (simp_all add: funpow_swap1)
    qed
    moreover have "k' = (CSHA256 E ^^ Suc (Suc n)) k"
      using n(2) by (simp add: funpow_swap1)
    ultimately show ?thesis
      using n(1,3) by (intro exI [of _ "Suc n"]) simp
  qed
qed

lemma hash_until_valid_least:
  "GetPublicKey E ((CSHA256 E ^^ Suc n) k) = Some pk \<Longrightarrow>
   \<forall>m<n. GetPublicKey E ((CSHA256 E ^^ Suc m) k) = None \<Longrightarrow> n < fuel \<Longrightarrow>
   hash_until_valid E fuel k = Some ((CSHA256 E ^^ Suc n) k, pk)"
proof (induction n arbitrary: k fuel)
  case 0
  then obtain f where "fuel = Suc f" by (cases fuel) auto
  with 0 show ?case by (simp add: Let_def)
next
  case (Suc n)
  then obtain f where f: "fuel = Suc f" "n < f" by (cases fuel) auto
  from Suc.prems(2) have first: "GetPublicKey E (CSHA256 E k) = None"
    by (auto dest: spec [of _ 0])
  have "hash_until_valid E f (CSHA256 E k) = Some ((CSHA256 E ^^ Suc n) (CSHA256 E k), pk)"
  proof (rule Suc.IH)
    show "GetPublicKey E ((CSHA256 E ^^ Suc n) (CSHA256 E k)) = Some pk"
      using Suc.prems(1) by (simp add: funpow_swap1)
    show "\<forall>m<n. GetPublicKey E ((CSHA256 E ^^ Suc m) (CSHA256 E k)) = None"
    proof (intro allI impI)
      fix m assume "m < n"
      then have "Suc m < Suc n" by simp
      with Suc.prems(2) have "GetPublicKey E ((CSHA256 E ^^ Suc (Suc m)) k) = None" by blast
      then show "GetPublicKey E ((CSHA256 E ^^ Suc m) (CSHA256 E k)) = None"
        by (simp add: funpow_swap1)
    qed
    show "n < f" by (rule f(2))
  qed
  with first f(1) show ?case
    by (simp add: Let_def funpow_swap1)
qed

lemma hash_until_valid_mono:
  "hash_until_valid E f1 k = Some r \<Longrightarrow> f1 \<le> f2 \<Longrightarrow> hash_until_valid E f2 k = Some r"
proof (induction f1 arbitrary: k f2)
  case 0
  then show ?case by simp
next
  case (Suc f1)
  then obtain f where f: "f2 = Suc f" "f1 \<le> f" by (cases f2) auto
  show ?case
  proof (cases "GetPublicKey E (CSHA256 E k)")
    case None
    with Suc.prems(1) have "hash_until_valid E f1 (CSHA256 E k) = Some r"
      by (simp add: Let_def)
    from Suc.IH [OF this f(2)] None f(1) show ?thesis
      by (simp add: Let_def)
  next
    case (Some pk)
    with Suc.prems(1) f(1) show ?thesis by (simp add: Let_def)
  qed
qed

lemma hash_until_valid_unique:
  assumes "hash_until_valid E f1 k = Some r1" and "hash_until_valid E f2 k = Some r2"
  shows "r1 = r2"
proof (cases "f1 \<le> f2")
  case True
  from hash_until_valid_mono [OF assms(1) True] assms(2) show ?thesis by simp
next
  case False
  then have "f2 \<le> f1" by simp
  from hash_until_valid_mono [OF assms(2) this] assms(1) show ?thesis by simp
qed

lemma GeneratePrivateKey_seed_unique:
  assumes "GeneratePrivateKey_seed E f1 seed = Some r1"
    and "GeneratePrivateKey_seed E f2 seed = Some r2"
  shows "r1 = r2"
proof -
  from assms(1) obtain h1 where h1: "hash_until_valid E f1 (take 32 seed) = Some h1"
    by (auto simp: GeneratePrivateKey_seed_def Let_def split: option.splits)
  from assms(2) obtain h2 where h2: "hash_until_valid E f2 (take 32 seed) = Some h2"
    by (auto simp: GeneratePrivateKey_seed_def Let_def split: option.splits)
  have "h1 = h2" by (rule hash_until_valid_unique [OF h1 h2])
  with assms h1 h2 show ?thesis
    by (simp add: GeneratePrivateKey_seed_def Let_def)
qed

text \<open>
  C3. Key derivation is deterministic. Two calls of \<open>GeneratePrivateKey\<close> on the
  same 512-bit seed that return give the same result, however many loop iterations
  each was allowed; and two calls on the same seed id that return give the same
  result in any two wallet objects that agree on what \<^verbatim>\<open>GetKey\<close> and the key
  metadata hold for that seed id: the pool, the database, the master id and every
  other key of the wallet play no part. The result holds the serial scalar, the
  randomness scalar and the ECDSA signing key.
\<close>

theorem GeneratePrivateKey_deterministic:
  "(GeneratePrivateKey_seed E f1 seed = Some r1 \<and> GeneratePrivateKey_seed E f2 seed = Some r2
      \<longrightarrow> r1 = r2) \<and>
   (GetKey (pwalletMain st1) sid = GetKey (pwalletMain st2) sid \<and>
    mapKeyMetadata (pwalletMain st1) sid = mapKeyMetadata (pwalletMain st2) sid \<and>
    GeneratePrivateKey E f1 st1 sid = Some q1 \<and> GeneratePrivateKey E f2 st2 sid = Some q2
      \<longrightarrow> q1 = q2)"
proof (intro conjI impI)
  assume "GeneratePrivateKey_seed E f1 seed = Some r1 \<and> GeneratePrivateKey_seed E f2 seed = Some r2"
  then show "r1 = r2" by (blast intro: GeneratePrivateKey_seed_unique)
next
  assume a: "GetKey (pwalletMain st1) sid = GetKey (pwalletMain st2) sid \<and>
    mapKeyMetadata (pwalletMain st1) sid = mapKeyMetadata (pwalletMain st2) sid \<and>
    GeneratePrivateKey E f1 st1 sid = Some q1 \<and> GeneratePrivateKey E f2 st2 sid = Some q2"
  then have "GetSeedIndex E st1 sid = GetSeedIndex E st2 sid"
    by (simp add: GetSeedIndex_def)
  with a have s: "GenerateSeed E st1 sid = GenerateSeed E st2 sid"
    by (simp add: GenerateSeed_def cong: option.case_cong)
  show "q1 = q2"
  proof (cases "GenerateSeed E st2 sid")
    case (Inl e)
    with a s show ?thesis by (auto simp: GeneratePrivateKey_def)
  next
    case (Inr p)
    obtain seed' ix where p: "p = (seed', ix)" by (cases p)
    from a s Inr p have "GeneratePrivateKey_seed E f1 seed' = Some q1"
      "GeneratePrivateKey_seed E f2 seed' = Some q2"
      by (simp_all add: GeneratePrivateKey_def)
    then show ?thesis by (rule GeneratePrivateKey_seed_unique)
  qed
qed

theorem GeneratePrivateKey_deterministic_witness:
  "GeneratePrivateKey demo_env 3 (demo_state [] (demo_db None no_faults)) [3] =
     Some (Inr \<lparr>serial = 5, randomness = 5, ecdsaPrivateKey = 4 # replicate 31 5\<rparr>) \<and>
   GeneratePrivateKey demo_env 7
     ((demo_state demo_pool (demo_db (Some demo_pool) (fails_only OpWriteMintId)))
        \<lparr>masterId := [8],
         pwalletMain := demo_wallet\<lparr>IsLocked := True, GetKey := (GetKey demo_wallet)([5] := None)\<rparr>\<rparr>) [3] =
     Some (Inr \<lparr>serial = 5, randomness = 5, ecdsaPrivateKey = 4 # replicate 31 5\<rparr>)"
proof -
  let ?st1 = "demo_state [] (demo_db None no_faults)"
  let ?st2 = "(demo_state demo_pool (demo_db (Some demo_pool) (fails_only OpWriteMintId)))
        \<lparr>masterId := [8],
         pwalletMain := demo_wallet\<lparr>IsLocked := True, GetKey := (GetKey demo_wallet)([5] := None)\<rparr>\<rparr>"
  let ?k = "Inr \<lparr>serial = 5, randomness = 5, ecdsaPrivateKey = 4 # replicate 31 5\<rparr> :: error + LelantusPrivateKey"
  have a: "GeneratePrivateKey demo_env 3 ?st1 [3] = Some ?k"
    by code_simp
  have b: "GeneratePrivateKey demo_env 7 ?st2 [3] \<noteq> None"
    by code_simp
  then obtain q2 where q2: "GeneratePrivateKey demo_env 7 ?st2 [3] = Some q2" by blast
  have k: "GetKey (pwalletMain ?st1) [3] = GetKey (pwalletMain ?st2) [3]"
    by (simp add: demo_state_def)
  have m: "mapKeyMetadata (pwalletMain ?st1) [3] = mapKeyMetadata (pwalletMain ?st2) [3]"
    by (simp add: demo_state_def)
  have "?k = q2"
    by (rule GeneratePrivateKey_deterministic [THEN conjunct2, THEN mp,
          OF conjI [OF k conjI [OF m conjI [OF a q2]]]])
  with a q2 show ?thesis by simp
qed


text \<open>
  C10. The loop is a do-while: the signing key of a returned private key is SHA-256
  applied \<open>n + 1\<close> times to the first 32 bytes of the seed, for the least \<open>n\<close> whose
  iterate is accepted by \<open>GetPublicKey\<close>; every earlier iterate, from the first
  hash on, was rejected, each candidate being the hash of the one before. The first
  32 bytes themselves are never tested. Conversely, when such an \<open>n\<close> is within the
  fuel and the serial can be built, that key is what the function returns.
\<close>

theorem GeneratePrivateKey_hashes_first:
  "(GeneratePrivateKey_seed E fuel seed = Some (Inr priv) \<longrightarrow>
      (\<exists>n<fuel. ecdsaPrivateKey priv = (CSHA256 E ^^ Suc n) (take 32 seed) \<and>
         GetPublicKey E (ecdsaPrivateKey priv) \<noteq> None \<and>
         (\<forall>m<n. GetPublicKey E ((CSHA256 E ^^ Suc m) (take 32 seed)) = None))) \<and>
   (GetPublicKey E ((CSHA256 E ^^ Suc n) (take 32 seed)) = Some pk \<and>
    (\<forall>m<n. GetPublicKey E ((CSHA256 E ^^ Suc m) (take 32 seed)) = None) \<and>
    n < fuel \<and> GenerateSerial E pk = Inr ser \<longrightarrow>
      GeneratePrivateKey_seed E fuel seed =
        Some (Inr \<lparr>serial = ser, randomness = memberFromSeed E (take 32 (drop 32 seed)),
                   ecdsaPrivateKey = (CSHA256 E ^^ Suc n) (take 32 seed)\<rparr>))"
proof (intro conjI impI)
  assume a: "GeneratePrivateKey_seed E fuel seed = Some (Inr priv)"
  then obtain k' pk' where h: "hash_until_valid E fuel (take 32 seed) = Some (k', pk')"
    by (auto simp: GeneratePrivateKey_seed_def Let_def split: option.splits)
  with a have k': "ecdsaPrivateKey priv = k'"
    by (auto simp: GeneratePrivateKey_seed_def Let_def split: sum.splits)
  from hash_until_valid_Some [OF h] k'
  show "\<exists>n<fuel. ecdsaPrivateKey priv = (CSHA256 E ^^ Suc n) (take 32 seed) \<and>
         GetPublicKey E (ecdsaPrivateKey priv) \<noteq> None \<and>
         (\<forall>m<n. GetPublicKey E ((CSHA256 E ^^ Suc m) (take 32 seed)) = None)"
    by auto
next
  assume a: "GetPublicKey E ((CSHA256 E ^^ Suc n) (take 32 seed)) = Some pk \<and>
    (\<forall>m<n. GetPublicKey E ((CSHA256 E ^^ Suc m) (take 32 seed)) = None) \<and>
    n < fuel \<and> GenerateSerial E pk = Inr ser"
  then have "hash_until_valid E fuel (take 32 seed) = Some ((CSHA256 E ^^ Suc n) (take 32 seed), pk)"
    by (intro hash_until_valid_least) auto
  with a show "GeneratePrivateKey_seed E fuel seed =
        Some (Inr \<lparr>serial = ser, randomness = memberFromSeed E (take 32 (drop 32 seed)),
                   ecdsaPrivateKey = (CSHA256 E ^^ Suc n) (take 32 seed)\<rparr>)"
    by (simp add: GeneratePrivateKey_seed_def Let_def)
qed

text \<open>In the small instance the first 32 bytes of the seed are already a valid key; the
  first hash is rejected and the second is returned.\<close>

theorem GeneratePrivateKey_hashes_first_witness:
  "GetPublicKey demo_env (take 32 (replicate 64 2)) \<noteq> None \<and>
   GeneratePrivateKey_seed demo_env 5 (replicate 64 2) =
     Some (Inr \<lparr>serial = 5, randomness = 2, ecdsaPrivateKey = replicate 32 4\<rparr>)"
proof -
  let ?seed = "replicate 64 2 :: bytes"
  have raw: "GetPublicKey demo_env (take 32 ?seed) \<noteq> None"
    by code_simp
  have h: "GetPublicKey demo_env ((CSHA256 demo_env ^^ Suc 1) (take 32 ?seed)) = Some (replicate 64 4) \<and>
    (\<forall>m<1. GetPublicKey demo_env ((CSHA256 demo_env ^^ Suc m) (take 32 ?seed)) = None) \<and>
    (1::nat) < 5 \<and> GenerateSerial demo_env (replicate 64 4) = Inr 5"
  proof (intro conjI allI impI)
    show "GetPublicKey demo_env ((CSHA256 demo_env ^^ Suc 1) (take 32 ?seed)) = Some (replicate 64 4)"
      by code_simp
    show "GenerateSerial demo_env (replicate 64 4) = Inr 5"
      by code_simp
    have "GetPublicKey demo_env ((CSHA256 demo_env ^^ Suc 0) (take 32 ?seed)) = None"
      by code_simp
    then show "GetPublicKey demo_env ((CSHA256 demo_env ^^ Suc m) (take 32 ?seed)) = None"
      if "m < 1" for m using that by simp
  qed simp
  have e: "\<lparr>serial = 5, randomness = memberFromSeed demo_env (take 32 (drop 32 ?seed)),
                   ecdsaPrivateKey = (CSHA256 demo_env ^^ Suc 1) (take 32 ?seed)\<rparr>
      = \<lparr>serial = 5, randomness = 2, ecdsaPrivateKey = replicate 32 4\<rparr>"
    by code_simp
  from GeneratePrivateKey_hashes_first [THEN conjunct2, THEN mp, OF h]
  have "GeneratePrivateKey_seed demo_env 5 ?seed =
     Some (Inr \<lparr>serial = 5, randomness = 2, ecdsaPrivateKey = replicate 32 4\<rparr>)"
    unfolding e .
  with raw show ?thesis by blast
qed

subsection \<open>Mint identity\<close>

text \<open>
  C9, as the source has it. The mint entry id is \<open>Hash (Hash(PublicCoin) || seedId)\<close>
  where the public coin is \<open>commit (g, serial, h0, randomness)\<close>: the amount is not
  an input of the commitment, the id of a private coin is the id of its serial and
  randomness, and changing only the amount of a coin leaves its id unchanged.
\<close>

theorem MintEntryId_without_amount:
  "MintEntryId E ser rnd sid =
     Hash E (GetPubCoinValueHash E (commit E (get_g E) ser (get_h0 E) rnd) @ sid) \<and>
   MintEntryId_coin E (GetPrivateCoin k a) sid = MintEntryId E (serial k) (randomness k) sid \<and>
   MintEntryId_coin E (coin\<lparr>coin_v := a\<rparr>) sid = MintEntryId_coin E coin sid"
  by (simp add: MintEntryId_def MintEntryId_coin_def GetPrivateCoin_def Let_def)

text \<open>Two coins that differ only in amount, 10 and 20, receive the same id.\<close>

theorem MintEntryId_counterexample:
  "MintEntryId_coin demo_env
     (GetPrivateCoin \<lparr>serial = 1, randomness = 2, ecdsaPrivateKey = replicate 32 4\<rparr> 10) [3] =
   MintEntryId_coin demo_env
     (GetPrivateCoin \<lparr>serial = 1, randomness = 2, ecdsaPrivateKey = replicate 32 4\<rparr> 20) [3]"
  by code_simp

subsection \<open>Filling and reloading the pool\<close>

lemma FillMintPool_loop_below:
  "length (mintPool st) < MINTPOOL_CAPACITY \<Longrightarrow>
   FillMintPool_loop E h fuel st g = None \<or>
   (\<exists>e st'. FillMintPool_loop E h fuel st g = Some (Inl e, st') \<and> mintPool st' = mintPool st
      \<and> database st' = database st)"
proof (induction fuel arbitrary: st g)
  case 0
  then show ?case by (simp add: FillMintPool_loop.simps [of E h 0])
next
  case (Suc fuel)
  note unf = FillMintPool_loop.simps [of E h "Suc fuel" st g]
  show ?case
  proof (cases "GenerateNewSeed E st")
    case (Pair r st1)
    then have p: "mintPool st1 = mintPool st" "database st1 = database st"
      by (auto simp: GenerateNewSeed_def Let_def split: prod.splits sum.splits)
    show ?thesis
    proof (cases r)
      case (Inl e)
      with Pair Suc.prems p show ?thesis by (simp add: unf)
    next
      case (Inr t)
      obtain sid seed ix where t: "t = (sid, seed, ix)" by (cases t)
      show ?thesis
      proof (cases "GeneratePrivateKey_seed E h seed")
        case None
        with Pair Inr t Suc.prems show ?thesis by (simp add: unf)
      next
        case (Some q)
        show ?thesis
        proof (cases q)
          case (Inl e)
          with Some Pair Inr t Suc.prems p show ?thesis by (simp add: unf)
        next
          case (Inr k)
          from Suc.prems p have "length (mintPool st1) < MINTPOOL_CAPACITY" by simp
          from Suc.IH [OF this, of "g + 1"] Inr Some Pair \<open>r = Inr t\<close> t Suc.prems p
          show ?thesis by (auto simp: unf)
        qed
      qed
    qed
  qed
qed

text \<open>
  C4, on the source. The claim is that \<open>FillMintPool\<close> on a pool below
  \<open>MINTPOOL_CAPACITY\<close> terminates with the pool filled to capacity and persisted.
  The source does not do so: on such a pool \<open>FillMintPool\<close> never returns normally.
  Either it does not return at all, or an exception of the key derivation leaves it,
  with the pool and the database as they were: no entry is inserted and nothing is
  persisted. Only the second half of the claim holds: on a pool at capacity the call
  returns 0 and changes nothing.
\<close>

theorem FillMintPool_never_inserts:
  "(length (mintPool st) < MINTPOOL_CAPACITY \<longrightarrow>
      FillMintPool E fuel st = None \<or>
      (\<exists>e st'. FillMintPool E fuel st = Some (Inl e, st') \<and> mintPool st' = mintPool st \<and>
         database st' = database st)) \<and>
   (MINTPOOL_CAPACITY \<le> length (mintPool st) \<longrightarrow> FillMintPool E fuel st = Some (Inr 0, st))"
proof (intro conjI impI)
  assume "length (mintPool st) < MINTPOOL_CAPACITY"
  from FillMintPool_loop_below [OF this, of E fuel fuel 0]
  show "FillMintPool E fuel st = None \<or>
      (\<exists>e st'. FillMintPool E fuel st = Some (Inl e, st') \<and> mintPool st' = mintPool st \<and>
         database st' = database st)"
    by (auto simp: FillMintPool_def)
next
  assume "MINTPOOL_CAPACITY \<le> length (mintPool st)"
  then show "FillMintPool E fuel st = Some (Inr 0, st)"
    by (simp add: FillMintPool_def FillMintPool_loop.simps [of E fuel fuel st 0])
qed


theorem FillMintPool_never_inserts_witness:
  "length (mintPool (demo_state [] (demo_db None no_faults))) < MINTPOOL_CAPACITY \<and>
   FillMintPool demo_env 3 (demo_state [] (demo_db None no_faults)) = None \<and>
   MINTPOOL_CAPACITY \<le> length (mintPool (demo_state demo_pool (demo_db None no_faults))) \<and>
   FillMintPool demo_env 3 (demo_state demo_pool (demo_db None no_faults)) =
     Some (Inr 0, demo_state demo_pool (demo_db None no_faults))"
proof -
  let ?s0 = "demo_state [] (demo_db None no_faults)"
  let ?s1 = "demo_state demo_pool (demo_db None no_faults)"
  have h0: "length (mintPool ?s0) < MINTPOOL_CAPACITY" by code_simp
  have h1: "MINTPOOL_CAPACITY \<le> length (mintPool ?s1)" by code_simp
  have n: "\<not> (\<exists>e st'. FillMintPool demo_env 3 ?s0 = Some (Inl e, st') \<and>
      mintPool st' = mintPool ?s0 \<and> database st' = database ?s0)"
  proof -
    have "FillMintPool demo_env 3 ?s0 = None" by code_simp
    then show ?thesis by simp
  qed
  from FillMintPool_never_inserts [THEN conjunct1, THEN mp, OF h0, of demo_env 3] n
  have "FillMintPool demo_env 3 ?s0 = None" by blast
  moreover from FillMintPool_never_inserts [THEN conjunct2, THEN mp, OF h1]
  have "FillMintPool demo_env 3 ?s1 = Some (Inr 0, ?s1)" .
  ultimately show ?thesis using h0 h1 by blast
qed

lemma length_pool_insert: "length (pool_insert e p) \<le> Suc (length p)"
  by (simp add: pool_insert_def)

lemma length_foldl_pool_insert:
  "length (foldl (\<lambda>p e. pool_insert e p) acc d) \<le> length acc + length d"
proof (induction d arbitrary: acc)
  case Nil
  then show ?case by simp
next
  case (Cons e d)
  have "length (foldl (\<lambda>p e. pool_insert e p) (pool_insert e acc) d)
      \<le> length (pool_insert e acc) + length d"
    by (rule Cons.IH)
  also have "\<dots> \<le> Suc (length acc) + length d"
    using length_pool_insert [of e acc] by simp
  finally show ?case by simp
qed

lemma length_LoadMintPool:
  "length (mintPool (LoadMintPool st)) \<le>
     (case mintPoolData (database st) of None \<Rightarrow> 0 | Some d \<Rightarrow> length d)"
  using length_foldl_pool_insert [of "[]"]
  by (simp add: LoadMintPool_def db_ReadMintPool_def split: option.splits)

lemma entry_invalid_mintPool [simp]:
  "entry_invalid (st\<lparr>mintPool := p\<rparr>) e = entry_invalid st e"
  by (simp add: entry_invalid_def split: option.splits)

lemma RemoveInvalid_loop_pool:
  "RemoveInvalid_loop st es u = (u', st') \<Longrightarrow>
     mintPool st' = filter (\<lambda>e. \<not> (e \<in> set es \<and> entry_invalid st e)) (mintPool st) \<and>
     database st' = database st \<and> pwalletMain st' = pwalletMain st \<and> masterId st' = masterId st"
proof (induction es arbitrary: st u)
  case Nil
  then show ?case by simp
next
  case (Cons a es)
  show ?case
  proof (cases "entry_invalid st a")
    case True
    let ?st1 = "st\<lparr>mintPool := removeAll a (mintPool st)\<rparr>"
    from Cons.prems True have "RemoveInvalid_loop ?st1 es True = (u', st')" by simp
    from Cons.IH [OF this] True show ?thesis
      by (auto simp: removeAll_filter_not_eq intro!: filter_cong)
  next
    case False
    with Cons.prems have "RemoveInvalid_loop st es u = (u', st')" by simp
    from Cons.IH [OF this] False show ?thesis
      by (auto intro!: filter_cong)
  qed
qed

text \<open>What the purge leaves: the entries of the pool whose key metadata exists and
  names the current master id, and nothing else of the wallet changed but the
  persisted pool.\<close>

lemma RemoveInvalidMintPoolEntries_Inr:
  assumes "RemoveInvalidMintPoolEntries st = (Inr x, st')"
  shows "mintPool st' = filter (\<lambda>e. \<not> entry_invalid st e) (mintPool st)"
    and "length (mintPool st') \<le> length (mintPool st)"
proof -
  obtain u st1 where l: "RemoveInvalid_loop st (pool_seq (mintPool st)) False = (u, st1)"
    by (cases "RemoveInvalid_loop st (pool_seq (mintPool st)) False")
  from RemoveInvalid_loop_pool [OF l]
  have p: "mintPool st1 = filter (\<lambda>e. \<not> entry_invalid st e) (mintPool st)"
    by (auto simp: pool_seq_def intro!: filter_cong)
  from assms l have "mintPool st' = mintPool st1"
    by (auto simp: RemoveInvalidMintPoolEntries_def SaveMintPool_def db_WriteMintPool_def Let_def
        split: if_splits)
  with p show "mintPool st' = filter (\<lambda>e. \<not> entry_invalid st e) (mintPool st)" by simp
  then show "length (mintPool st') \<le> length (mintPool st)" by simp
qed

lemma FillMintPool_Inr:
  assumes "FillMintPool E fuel st = Some (Inr n, st')"
  shows "MINTPOOL_CAPACITY \<le> length (mintPool st) \<and> st' = st"
proof (cases "length (mintPool st) < MINTPOOL_CAPACITY")
  case True
  from FillMintPool_loop_below [OF True, of E fuel fuel 0] assms show ?thesis
    by (auto simp: FillMintPool_def)
next
  case False
  with assms show ?thesis
    by (simp add: FillMintPool_def FillMintPool_loop.simps [of E fuel fuel st 0])
qed

text \<open>
  C7, on the source. The claim is that \<open>ReloadMasterKey\<close> completes with the pool
  purged and refilled to capacity. The source cannot refill: whenever the persisted
  pool holds fewer than \<open>MINTPOOL_CAPACITY\<close> entries (or none is stored),
  \<open>ReloadMasterKey\<close> never completes; it does not return, or it ends with an
  exception.
\<close>

theorem ReloadMasterKey_never_refills:
  "(case mintPoolData (database st) of None \<Rightarrow> True | Some d \<Rightarrow> length d < MINTPOOL_CAPACITY) \<Longrightarrow>
   ReloadMasterKey E fuel st = None \<or> (\<exists>e st'. ReloadMasterKey E fuel st = Some (Inl e, st'))"
proof -
  assume a: "case mintPoolData (database st) of None \<Rightarrow> True | Some d \<Rightarrow> length d < MINTPOOL_CAPACITY"
  have "ReloadMasterKey E fuel st \<noteq> Some (Inr u, st')" for u st'
  proof
    assume r: "ReloadMasterKey E fuel st = Some (Inr u, st')"
    let ?st1 = "st\<lparr>masterId := masterKeyID (pwalletMain st)\<rparr>"
    let ?st2 = "LoadMintPool ?st1"
    from r obtain x st3 where ri: "RemoveInvalidMintPoolEntries ?st2 = (Inr x, st3)"
      by (auto simp: ReloadMasterKey_def Let_def split: if_splits prod.splits sum.splits)
    then have st3: "length (mintPool st3) \<le> length (mintPool ?st2)"
      by (rule RemoveInvalidMintPoolEntries_Inr)
    from r ri obtain n where "FillMintPool E fuel st3 = Some (Inr n, st')"
      by (auto simp: ReloadMasterKey_def Let_def split: if_splits prod.splits sum.splits option.splits)
    then have "MINTPOOL_CAPACITY \<le> length (mintPool st3)"
      by (auto dest: FillMintPool_Inr)
    moreover have "length (mintPool ?st2) < MINTPOOL_CAPACITY"
      using length_LoadMintPool [of ?st1] a
      by (auto simp: MINTPOOL_CAPACITY_def split: option.splits)
    ultimately show False using st3 by simp
  qed
  then show ?thesis
    by (metis not_Some_eq old.prod.exhaust sum.exhaust_sel sum.collapse(1) sum.collapse(2))
qed

theorem ReloadMasterKey_never_refills_witness:
  "(case mintPoolData (database (demo_state [] (demo_db (Some (tl demo_pool)) no_faults))) of
      None \<Rightarrow> True | Some d \<Rightarrow> length d < MINTPOOL_CAPACITY) \<and>
   ReloadMasterKey demo_env 3 (demo_state [] (demo_db (Some (tl demo_pool)) no_faults)) = None"
proof -
  let ?s0 = "demo_state [] (demo_db (Some (tl demo_pool)) no_faults)"
  have h: "case mintPoolData (database ?s0) of None \<Rightarrow> True | Some d \<Rightarrow> length d < MINTPOOL_CAPACITY"
    by code_simp
  have n: "\<not> (\<exists>e st'. ReloadMasterKey demo_env 3 ?s0 = Some (Inl e, st'))"
  proof -
    have "ReloadMasterKey demo_env 3 ?s0 = None" by code_simp
    then show ?thesis by simp
  qed
  from ReloadMasterKey_never_refills [OF h, of demo_env 3] n
  have "ReloadMasterKey demo_env 3 ?s0 = None" by blast
  with h show ?thesis by blast
qed

subsection \<open>Clearing the chain state\<close>

lemma db_WriteMint_True:
  "db_WriteMint i m db = (True, db') \<Longrightarrow>
     db' = db\<lparr>mints := AList.update i m (mints db)\<rparr> \<and> \<not> failing db OpWriteMint"
  by (auto simp: db_WriteMint_def split: if_splits)

lemma ClearMints_loop_True:
  "distinct (map fst ms) \<Longrightarrow> ClearMints_loop ms db = (True, db') \<Longrightarrow>
     map_of (mints db') i =
       (case map_of ms i of
          Some m \<Rightarrow> Some (m\<lparr>chainState := LelantusMintChainState_default, spendTx := uint256_null\<rparr>)
        | None \<Rightarrow> map_of (mints db) i) \<and>
     mintIds db' = mintIds db \<and> mintPoolData db' = mintPoolData db \<and> failing db' = failing db"
proof (induction ms arbitrary: db)
  case Nil
  then show ?case by simp
next
  case (Cons a ms)
  obtain j m where a: "a = (j, m)" by (cases a)
  let ?m = "m\<lparr>chainState := LelantusMintChainState_default, spendTx := uint256_null\<rparr>"
  let ?db1 = "db\<lparr>mints := AList.update j ?m (mints db)\<rparr>"
  from Cons.prems(2) a have w: "\<not> failing db OpWriteMint" and l: "ClearMints_loop ms ?db1 = (True, db')"
    by (auto simp: Let_def db_WriteMint_def split: if_splits prod.splits)
  from Cons.prems(1) a have d: "distinct (map fst ms)" and nj: "map_of ms j = None"
    by (auto simp: map_of_eq_None_iff)
  from Cons.IH [OF d l] have ih: "map_of (mints db') i =
       (case map_of ms i of
          Some m \<Rightarrow> Some (m\<lparr>chainState := LelantusMintChainState_default, spendTx := uint256_null\<rparr>)
        | None \<Rightarrow> map_of (mints ?db1) i)"
    and rest: "mintIds db' = mintIds db" "mintPoolData db' = mintPoolData db" "failing db' = failing db"
    by simp_all
  show ?case
  proof (cases "i = j")
    case True
    with ih nj a rest show ?thesis by (simp add: update_conv')
  next
    case False
    with ih a rest show ?thesis by (simp add: update_conv' split: option.splits)
  qed
qed

lemma ClearMints_loop_ok:
  "\<not> failing db OpWriteMint \<Longrightarrow> fst (ClearMints_loop ms db)"
proof (induction ms arbitrary: db)
  case Nil
  then show ?case by simp
next
  case (Cons a ms)
  obtain j m where a: "a = (j, m)" by (cases a)
  from Cons.prems a Cons.IH [of "db\<lparr>mints := AList.update j
      (m\<lparr>chainState := LelantusMintChainState_default, spendTx := uint256_null\<rparr>) (mints db)\<rparr>"]
  show ?case by (simp add: Let_def db_WriteMint_def)
qed

text \<open>
  C8. When \<open>ClearMintsChainState\<close> returns, every stored mint record is the record it was
  with its chain state the unconfirmed default and its spend transaction null, so
  property, amount, seed id, serial id and creation transaction are unchanged and no
  record is added or lost; the serial-id index, the persisted pool and the rest of
  the wallet object are untouched. The update is transactional: when a write fails
  the exception leaves the wallet, database included, exactly as it was. With the
  mint writes succeeding the call returns.
\<close>

theorem ClearMintsChainState_resets:
  "(ClearMintsChainState st = (Inr u, st') \<longrightarrow>
      (\<forall>i. db_ReadMint i (database st') =
         map_option (\<lambda>m. m\<lparr>chainState := LelantusMintChainState_default, spendTx := uint256_null\<rparr>)
           (db_ReadMint i (database st))) \<and>
      (\<forall>i m'. db_ReadMint i (database st') = Some m' \<longrightarrow>
         chainState m' = LelantusMintChainState_default \<and> spendTx m' = uint256_null \<and>
         (\<exists>m. db_ReadMint i (database st) = Some m \<and> property m' = property m \<and>
            amount m' = amount m \<and> seedId m' = seedId m \<and> serialId m' = serialId m \<and>
            createdTx m' = createdTx m)) \<and>
      mintIds (database st') = mintIds (database st) \<and>
      mintPoolData (database st') = mintPoolData (database st) \<and>
      mintPool st' = mintPool st \<and> masterId st' = masterId st \<and> pwalletMain st' = pwalletMain st) \<and>
   (ClearMintsChainState st = (Inl e, st') \<longrightarrow> st' = st) \<and>
   (\<not> failing (database st) OpWriteMint \<longrightarrow> (\<exists>st''. ClearMintsChainState st = (Inr (), st'')))"
proof (intro conjI impI)
  let ?ms = "AList.clearjunk (mints (database st))"
  have d: "distinct (map fst ?ms)" by (rule distinct_clearjunk)
  {
    assume r: "ClearMintsChainState st = (Inr u, st')"
    then obtain db' where l: "ClearMints_loop ?ms (database st) = (True, db')"
      and st': "st' = st\<lparr>database := db'\<rparr>"
      by (auto simp: ClearMintsChainState_def db_ListMints_def Let_def split: prod.splits bool.splits)
    note c = ClearMints_loop_True [OF d l, unfolded map_of_clearjunk]
    show rd: "\<forall>i. db_ReadMint i (database st') =
         map_option (\<lambda>m. m\<lparr>chainState := LelantusMintChainState_default, spendTx := uint256_null\<rparr>)
           (db_ReadMint i (database st))"
      using c st' by (simp add: db_ReadMint_def split: option.splits)
    show "\<forall>i m'. db_ReadMint i (database st') = Some m' \<longrightarrow>
         chainState m' = LelantusMintChainState_default \<and> spendTx m' = uint256_null \<and>
         (\<exists>m. db_ReadMint i (database st) = Some m \<and> property m' = property m \<and>
            amount m' = amount m \<and> seedId m' = seedId m \<and> serialId m' = serialId m \<and>
            createdTx m' = createdTx m)"
      using rd by auto
    show "mintIds (database st') = mintIds (database st)"
      "mintPoolData (database st') = mintPoolData (database st)"
      "mintPool st' = mintPool st" "masterId st' = masterId st" "pwalletMain st' = pwalletMain st"
      using c st' by simp_all
  next
    assume "ClearMintsChainState st = (Inl e, st')"
    then show "st' = st"
      by (auto simp: ClearMintsChainState_def Let_def split: prod.splits bool.splits)
  next
    assume "\<not> failing (database st) OpWriteMint"
    from ClearMints_loop_ok [OF this, of ?ms]
    show "\<exists>st''. ClearMintsChainState st = (Inr (), st'')"
      by (auto simp: ClearMintsChainState_def db_ListMints_def Let_def split: prod.splits)
  }
qed


theorem ClearMintsChainState_resets_witness:
  "fst (ClearMintsChainState (demo_state []
      ((demo_db None no_faults)
         \<lparr>mints := [(demo_mintid 1, demo_mint 1 100), (demo_mintid 2, demo_mint 2 (- 1))]\<rparr>))) = Inr () \<and>
   db_ReadMint (demo_mintid 1) (database (snd (ClearMintsChainState (demo_state []
      ((demo_db None no_faults)
         \<lparr>mints := [(demo_mintid 1, demo_mint 1 100), (demo_mintid 2, demo_mint 2 (- 1))]\<rparr>))))) =
     Some ((demo_mint 1 100)\<lparr>chainState := LelantusMintChainState_default, spendTx := uint256_null\<rparr>)"
proof -
  let ?st = "demo_state []
      ((demo_db None no_faults)
         \<lparr>mints := [(demo_mintid 1, demo_mint 1 100), (demo_mintid 2, demo_mint 2 (- 1))]\<rparr>)"
  have r: "fst (ClearMintsChainState ?st) = Inr ()" by code_simp
  then have c: "ClearMintsChainState ?st = (Inr (), snd (ClearMintsChainState ?st))"
    by (metis prod.collapse)
  have e: "map_option (\<lambda>m. m\<lparr>chainState := LelantusMintChainState_default, spendTx := uint256_null\<rparr>)
      (db_ReadMint (demo_mintid 1) (database ?st)) =
     Some ((demo_mint 1 100)\<lparr>chainState := LelantusMintChainState_default, spendTx := uint256_null\<rparr>)"
    by code_simp
  from ClearMintsChainState_resets [THEN conjunct1, THEN mp, OF c]
  have "db_ReadMint (demo_mintid 1) (database (snd (ClearMintsChainState ?st))) =
      map_option (\<lambda>m. m\<lparr>chainState := LelantusMintChainState_default, spendTx := uint256_null\<rparr>)
      (db_ReadMint (demo_mintid 1) (database ?st))"
    by blast
  with e r show ?thesis by simp
qed

subsection \<open>Removing from the pool\<close>

text \<open>
  C6, as the source has it. \<open>RemoveFromMintPool i\<close> erases the pool entry whose id
  is \<open>i\<close> and persists the pool: it returns true when the pool write succeeds, and
  leaves by the exception of \<open>SaveMintPool\<close>, the entry erased in memory, when it
  fails. It does not refill the pool. With no entry of id \<open>i\<close> it returns false and
  changes neither the pool nor the database. The refill is the call of
  \<open>FillMintPool\<close> that \<open>WriteMint\<close>, its caller, makes right after it, whatever it
  returned.
\<close>

theorem RemoveFromMintPool_effect:
  "((\<exists>e\<in>set (mintPool st). entry_id e = i) \<and> \<not> failing (database st) OpWriteMintPool \<longrightarrow>
      RemoveFromMintPool i st =
        (Inr True,
         st\<lparr>mintPool := filter (\<lambda>e. entry_id e \<noteq> i) (mintPool st),
            database := (database st)
              \<lparr>mintPoolData := Some (pool_seq (filter (\<lambda>e. entry_id e \<noteq> i) (mintPool st)))\<rparr>\<rparr>)) \<and>
   ((\<exists>e\<in>set (mintPool st). entry_id e = i) \<and> failing (database st) OpWriteMintPool \<longrightarrow>
      RemoveFromMintPool i st =
        (Inl (runtime_error ''fail to save mint pool to DB''),
         st\<lparr>mintPool := filter (\<lambda>e. entry_id e \<noteq> i) (mintPool st)\<rparr>)) \<and>
   (\<not> (\<exists>e\<in>set (mintPool st). entry_id e = i) \<longrightarrow> RemoveFromMintPool i st = (Inr False, st)) \<and>
   (\<not> failing (database st) OpWriteMint \<and> \<not> failing (database st) OpWriteMintId \<longrightarrow>
      WriteMint E fuel st mi mint =
        (case RemoveFromMintPool (mintid_id mi)
                (st\<lparr>database := (database st)
                     \<lparr>mints := AList.update mi mint (mints (database st)),
                      mintIds := AList.update (serialId mint) mi (mintIds (database st))\<rparr>\<rparr>) of
           (Inl e, st3) \<Rightarrow> Some (Inl e, st3)
         | (Inr removed, st3) \<Rightarrow>
             (case FillMintPool E fuel st3 of
                None \<Rightarrow> None
              | Some (Inl e, st4) \<Rightarrow> Some (Inl e, st4)
              | Some (Inr n, st4) \<Rightarrow> Some (Inr (), st4))))"
proof (intro conjI impI)
  assume "(\<exists>e\<in>set (mintPool st). entry_id e = i) \<and> \<not> failing (database st) OpWriteMintPool"
  then show "RemoveFromMintPool i st =
        (Inr True,
         st\<lparr>mintPool := filter (\<lambda>e. entry_id e \<noteq> i) (mintPool st),
            database := (database st)
              \<lparr>mintPoolData := Some (pool_seq (filter (\<lambda>e. entry_id e \<noteq> i) (mintPool st)))\<rparr>\<rparr>)"
    by (simp add: RemoveFromMintPool_def SaveMintPool_def db_WriteMintPool_def Let_def)
next
  assume "(\<exists>e\<in>set (mintPool st). entry_id e = i) \<and> failing (database st) OpWriteMintPool"
  then show "RemoveFromMintPool i st =
        (Inl (runtime_error ''fail to save mint pool to DB''),
         st\<lparr>mintPool := filter (\<lambda>e. entry_id e \<noteq> i) (mintPool st)\<rparr>)"
    by (simp add: RemoveFromMintPool_def SaveMintPool_def db_WriteMintPool_def Let_def)
next
  assume "\<not> (\<exists>e\<in>set (mintPool st). entry_id e = i)"
  then show "RemoveFromMintPool i st = (Inr False, st)"
    by (simp add: RemoveFromMintPool_def)
next
  assume "\<not> failing (database st) OpWriteMint \<and> \<not> failing (database st) OpWriteMintId"
  then show "WriteMint E fuel st mi mint =
        (case RemoveFromMintPool (mintid_id mi)
                (st\<lparr>database := (database st)
                     \<lparr>mints := AList.update mi mint (mints (database st)),
                      mintIds := AList.update (serialId mint) mi (mintIds (database st))\<rparr>\<rparr>) of
           (Inl e, st3) \<Rightarrow> Some (Inl e, st3)
         | (Inr removed, st3) \<Rightarrow>
             (case FillMintPool E fuel st3 of
                None \<Rightarrow> None
              | Some (Inl e, st4) \<Rightarrow> Some (Inl e, st4)
              | Some (Inr n, st4) \<Rightarrow> Some (Inr (), st4)))"
    by (simp add: WriteMint_def db_WriteMint_def db_WriteMintId_def Let_def)
qed

theorem RemoveFromMintPool_effect_witness:
  "(\<exists>e\<in>set (mintPool (demo_state [demo_entry 1, demo_entry 2] (demo_db None no_faults))).
      entry_id e = [1]) \<and>
   \<not> failing (database (demo_state [demo_entry 1, demo_entry 2] (demo_db None no_faults)))
      OpWriteMintPool \<and>
   RemoveFromMintPool [1] (demo_state [demo_entry 1, demo_entry 2] (demo_db None no_faults)) =
     (Inr True, demo_state [demo_entry 2] (demo_db (Some [demo_entry 2]) no_faults))"
proof -
  let ?st = "demo_state [demo_entry 1, demo_entry 2] (demo_db None no_faults)"
  have h: "(\<exists>e\<in>set (mintPool ?st). entry_id e = [1]) \<and> \<not> failing (database ?st) OpWriteMintPool"
    by code_simp
  have e: "?st\<lparr>mintPool := filter (\<lambda>e. entry_id e \<noteq> [1]) (mintPool ?st),
            database := (database ?st)
              \<lparr>mintPoolData := Some (pool_seq (filter (\<lambda>e. entry_id e \<noteq> [1]) (mintPool ?st)))\<rparr>\<rparr>
      = demo_state [demo_entry 2] (demo_db (Some [demo_entry 2]) no_faults)"
    by (simp add: demo_state_def demo_db_def demo_entry_def pool_seq_def)
  from RemoveFromMintPool_effect [THEN conjunct1, THEN mp, OF h]
  have "RemoveFromMintPool [1] ?st =
     (Inr True, demo_state [demo_entry 2] (demo_db (Some [demo_entry 2]) no_faults))"
    unfolding e .
  with h show ?thesis by blast
qed

text \<open>
  The claim as worded does not hold: from a pool of two entries
  \<open>RemoveFromMintPool\<close> returns true with one entry left. No refill has run inside
  it, for \<open>FillMintPool\<close> returns only on a pool at capacity.
\<close>

theorem RemoveFromMintPool_counterexample:
  "fst (RemoveFromMintPool [1] (demo_state [demo_entry 1, demo_entry 2] (demo_db None no_faults)))
     = Inr True \<and>
   length (mintPool (snd (RemoveFromMintPool [1]
     (demo_state [demo_entry 1, demo_entry 2] (demo_db None no_faults))))) = 1 \<and>
   1 < MINTPOOL_CAPACITY"
  by code_simp

subsection \<open>Generating a mint\<close>

lemma GenerateSeed_error: "GenerateSeed E st sid = Inl e \<Longrightarrow> \<not> write_failure e"
  by (auto simp: GenerateSeed_def GetSeedIndex_def write_failure_def
      split: option.splits sum.splits prod.splits if_splits)

lemma GenerateNewSeed_error:
  "GenerateNewSeed E st = (Inl e, st') \<Longrightarrow> \<not> write_failure e"
  by (auto simp: GenerateNewSeed_def Let_def write_failure_def
      split: prod.splits sum.splits dest: GenerateSeed_error)

lemma GeneratePrivateKey_seed_error:
  "GeneratePrivateKey_seed E fuel seed = Some (Inl e) \<Longrightarrow> \<not> write_failure e"
  by (auto simp: GeneratePrivateKey_seed_def GenerateSerial_def Let_def write_failure_def
      split: option.splits sum.splits prod.splits if_splits)

lemma GeneratePrivateKey_error:
  "GeneratePrivateKey E fuel st sid = Some (Inl e) \<Longrightarrow> \<not> write_failure e"
  by (auto simp: GeneratePrivateKey_def split: sum.splits prod.splits
      dest: GenerateSeed_error GeneratePrivateKey_seed_error)

lemma SaveMintPool_error: "SaveMintPool st = (Inl e, st') \<Longrightarrow> \<not> write_failure e"
  by (auto simp: SaveMintPool_def Let_def write_failure_def split: prod.splits bool.splits)

lemma RemoveFromMintPool_error: "RemoveFromMintPool i st = (Inl e, st') \<Longrightarrow> \<not> write_failure e"
  by (auto simp: RemoveFromMintPool_def split: if_splits prod.splits sum.splits
      dest: SaveMintPool_error)

lemma FillMintPool_loop_error:
  "FillMintPool_loop E h fuel st g = Some (Inl e, st') \<Longrightarrow> \<not> write_failure e"
proof (induction fuel arbitrary: st g)
  case 0
  then show ?case
    by (simp add: FillMintPool_loop.simps [of E h 0] split: if_splits)
next
  case (Suc fuel)
  from Suc.prems show ?case
    by (auto simp: FillMintPool_loop.simps [of E h "Suc fuel"]
        split: if_splits prod.splits sum.splits option.splits
        dest: GenerateNewSeed_error GeneratePrivateKey_seed_error Suc.IH)
qed

lemma FillMintPool_error: "FillMintPool E fuel st = Some (Inl e, st') \<Longrightarrow> \<not> write_failure e"
  by (auto simp: FillMintPool_def split: option.splits prod.splits sum.splits if_splits
      dest: FillMintPool_loop_error SaveMintPool_error)

lemma RemoveInvalidMintPoolEntries_error:
  "RemoveInvalidMintPoolEntries st = (Inl e, st') \<Longrightarrow> \<not> write_failure e"
  by (auto simp: RemoveInvalidMintPoolEntries_def split: prod.splits if_splits
      dest: SaveMintPool_error)

lemma ReloadMasterKey_error:
  "ReloadMasterKey E fuel st = Some (Inl e, st') \<Longrightarrow> \<not> write_failure e"
  by (auto simp: ReloadMasterKey_def Let_def
      split: if_splits prod.splits sum.splits option.splits
      dest: RemoveInvalidMintPoolEntries_error FillMintPool_error)
    (simp_all add: write_failure_def)

lemma WriteMint_write_failure:
  assumes "WriteMint E fuel st i m = Some (Inl e, st')" and "write_failure e"
  shows "mintPool st' = mintPool st \<and> mintPoolData (database st') = mintPoolData (database st) \<and>
    pwalletMain st' = pwalletMain st \<and> masterId st' = masterId st"
proof (cases "failing (database st) OpWriteMint")
  case True
  with assms(1) show ?thesis by (simp add: WriteMint_def db_WriteMint_def)
next
  case f1: False
  show ?thesis
  proof (cases "failing (database st) OpWriteMintId")
    case True
    with f1 assms(1) show ?thesis
      by (auto simp: WriteMint_def db_WriteMint_def db_WriteMintId_def Let_def)
  next
    case False
    with f1 assms have False
      by (auto simp: WriteMint_def db_WriteMint_def db_WriteMintId_def Let_def
          split: prod.splits sum.splits option.splits
          dest: RemoveFromMintPool_error FillMintPool_error)
    then show ?thesis ..
  qed
qed

lemma GenerateMint_with_write_failure:
  assumes "GenerateMint_with E fuel st prop amt sid = Some (Inl e, st')" and "write_failure e"
  shows "mintPool st' = mintPool st \<and> mintPoolData (database st') = mintPoolData (database st) \<and>
    pwalletMain st' = pwalletMain st \<and> masterId st' = masterId st"
  using assms
  by (auto simp: GenerateMint_with_def Let_def split: option.splits sum.splits prod.splits
      dest: GeneratePrivateKey_error WriteMint_write_failure)

text \<open>
  C2, as the source has it. When \<open>GenerateMint\<close> ends with one of the two
  exceptions \<open>WriteMint\<close> throws on a failed database write, the pool, the persisted
  pool, the wallet keys and the master id are what they were when \<open>WriteMint\<close> was
  entered: the consumed entry is not removed and the pool is neither refilled nor
  persisted again. With a seed id given, or a pool that was not empty, that is the
  state at the call. When \<open>GenerateMint\<close> found the pool empty it has run
  \<open>ReloadMasterKey\<close> before the write, and the state is the one that reload left.
\<close>

theorem GenerateMint_write_failure:
  assumes "GenerateMint E fuel st prop amt seedIdOpt = Some (Inl e, st')" and "write_failure e"
  shows "\<exists>st1. (if seedIdOpt = None \<and> mintPool st = []
                then ReloadMasterKey E fuel st = Some (Inr (), st1) else st1 = st) \<and>
     mintPool st' = mintPool st1 \<and>
     mintPoolData (database st') = mintPoolData (database st1) \<and>
     pwalletMain st' = pwalletMain st1 \<and> masterId st' = masterId st1"
proof (cases "seedIdOpt = None \<and> mintPool st = []")
  case False
  with assms(1) have "\<exists>sid. GenerateMint_with E fuel st prop amt sid = Some (Inl e, st')"
    using assms(2)
    by (auto simp: GenerateMint_def write_failure_def split: option.splits if_splits)
  then show ?thesis
    using False assms(2) by (auto dest: GenerateMint_with_write_failure)
next
  case True
  from assms True have nl: "\<not> IsLocked (pwalletMain st)"
    by (auto simp: GenerateMint_def write_failure_def split: if_splits)
  show ?thesis
  proof (cases "ReloadMasterKey E fuel st")
    case None
    with assms True nl show ?thesis by (simp add: GenerateMint_def)
  next
    case (Some r)
    obtain x st1 where r: "r = (x, st1)" by (cases r)
    show ?thesis
    proof (cases x)
      case (Inl e')
      with assms True nl Some r have "e' = e" by (simp add: GenerateMint_def)
      with Some r Inl assms(2) show ?thesis by (auto dest: ReloadMasterKey_error)
    next
      case (Inr u)
      with assms True nl Some r
      have "\<exists>sid. GenerateMint_with E fuel st1 prop amt sid = Some (Inl e, st')"
        by (auto simp: GenerateMint_def write_failure_def split: if_splits)
      then have "mintPool st' = mintPool st1 \<and>
          mintPoolData (database st') = mintPoolData (database st1) \<and>
          pwalletMain st' = pwalletMain st1 \<and> masterId st' = masterId st1"
        using assms(2) by (auto dest: GenerateMint_with_write_failure)
      with True Some r Inr show ?thesis by auto
    qed
  qed
qed


theorem GenerateMint_write_failure_witness:
  "write_failure (runtime_error ''fail to write hdmint'') \<and>
   map_option fst (GenerateMint demo_env 3
       (demo_state demo_pool (demo_db (Some demo_pool) (fails_only OpWriteMint))) 1 10 None) =
     Some (Inl (runtime_error ''fail to write hdmint'')) \<and>
   map_option (\<lambda>r. (mintPool (snd r), mintPoolData (database (snd r))))
     (GenerateMint demo_env 3
       (demo_state demo_pool (demo_db (Some demo_pool) (fails_only OpWriteMint))) 1 10 None) =
     Some (demo_pool, Some demo_pool)"
proof -
  let ?st = "demo_state demo_pool (demo_db (Some demo_pool) (fails_only OpWriteMint))"
  let ?G = "GenerateMint demo_env 3 ?st 1 10 None"
  let ?err = "runtime_error ''fail to write hdmint''"
  have w: "write_failure ?err" by (simp add: write_failure_def)
  have r: "map_option fst ?G = Some (Inl ?err)" by code_simp
  then obtain st' where g: "?G = Some (Inl ?err, st')" by (cases ?G) auto
  have ne: "mintPool ?st \<noteq> []" by (simp add: demo_state_def demo_pool_def)
  from GenerateMint_write_failure [OF g w] ne
  have "mintPool st' = mintPool ?st \<and> mintPoolData (database st') = mintPoolData (database ?st)"
    by auto
  then have "mintPool st' = demo_pool \<and> mintPoolData (database st') = Some demo_pool"
    by (simp add: demo_state_def demo_db_def)
  with g w r show ?thesis by simp
qed

text \<open>
  The claim as worded does not hold on the reload path: called with an empty pool
  over a database that holds a pool of twenty entries and refuses the mint write,
  \<open>GenerateMint\<close> ends with the exception of the write and a pool of twenty entries.
\<close>

theorem GenerateMint_write_failure_counterexample:
  "mintPool (demo_state [] (demo_db (Some demo_pool) (fails_only OpWriteMint))) = [] \<and>
   map_option fst
     (GenerateMint demo_env 3
       (demo_state [] (demo_db (Some demo_pool) (fails_only OpWriteMint))) 1 10 None) =
     Some (Inl (runtime_error ''fail to write hdmint'')) \<and>
   map_option (length \<circ> mintPool \<circ> snd)
     (GenerateMint demo_env 3
       (demo_state [] (demo_db (Some demo_pool) (fails_only OpWriteMint))) 1 10 None) =
     Some 20"
  by code_simp








end
